theory Spec2Isabelle
  imports Main "HOL-Library.Sublist"
begin

section \<open>Cell values\<close>

text \<open>
  The data frames of \<^verbatim>\<open>streamlit_app.py\<close> hold Python scalars. A Python \<^verbatim>\<open>str\<close> is a
  sequence of Unicode code points; here a text is a \<^typ>\<open>string\<close> whose character \<open>c\<close>
  stands for the code point \<open>of_char c\<close>, so the texts of the model are those over the
  Latin-1 repertoire (U+0000 to U+00FF), which holds the accented letters of Spanish.
  Python's \<^verbatim>\<open>int\<close> is \<^typ>\<open>int\<close>.

  A float is given by what the program observes of it: whether it is \<^verbatim>\<open>nan\<close>, whether
  \<^verbatim>\<open>is_integer()\<close> holds and then the value of \<^verbatim>\<open>int(value)\<close>, and the text
  \<^verbatim>\<open>str(value)\<close>. \<open>Whole i s\<close> is a finite float with zero fractional part
  (\<open>Whole 42 ''42.0''\<close> is \<^verbatim>\<open>42.0\<close>, \<open>Whole (10 ^ 16) ''1e+16''\<close> is \<^verbatim>\<open>1e16\<close>),
  \<open>Fractional s\<close> is any other float that is not \<^verbatim>\<open>nan\<close> (\<open>Fractional ''2.5''\<close>,
  \<open>Fractional ''inf''\<close>).
\<close>

datatype pyfloat = NaN | Whole int string | Fractional string

datatype cell = CNone | CStr string | CInt int | CFloat pyfloat

text \<open>\<^verbatim>\<open>pd.isna(value)\<close> on a scalar: \<^verbatim>\<open>None\<close> and \<^verbatim>\<open>nan\<close>.\<close>

fun isna :: "cell \<Rightarrow> bool" where
  "isna CNone = True"
| "isna (CFloat NaN) = True"
| "isna _ = False"

text \<open>\<^verbatim>\<open>value.is_integer()\<close> and \<^verbatim>\<open>int(value)\<close> of a float.\<close>

fun is_integer :: "pyfloat \<Rightarrow> bool" where
  "is_integer (Whole _ _) = True"
| "is_integer _ = False"

subsection \<open>Decimal rendering of integers\<close>

definition digit_char :: "nat \<Rightarrow> char" where
  "digit_char d = ''0123456789'' ! d"

function str_nat :: "nat \<Rightarrow> string" where
  "str_nat n = (if n < 10 then [digit_char n] else str_nat (n div 10) @ [digit_char (n mod 10)])"
  by pat_completeness auto
termination
  by (relation "measure id") auto

declare str_nat.simps [simp del]

definition str_int :: "int \<Rightarrow> string" where
  "str_int i = (if i < 0 then CHR ''-'' # str_nat (nat (- i)) else str_nat (nat i))"

text \<open>\<^verbatim>\<open>str(value)\<close>, which is also how \<^verbatim>\<open>astype(str)\<close> renders a cell.\<close>

fun str :: "cell \<Rightarrow> string" where
  "str CNone = ''None''"
| "str (CStr s) = s"
| "str (CInt i) = str_int i"
| "str (CFloat NaN) = ''nan''"
| "str (CFloat (Whole i s)) = s"
| "str (CFloat (Fractional s)) = s"

text \<open>
  \<^verbatim>\<open>int(value)\<close> of a float is called by the program only after \<^verbatim>\<open>is_integer()\<close> held;
  on the other floats Python truncates or raises, and the model returns \<open>None\<close>.
\<close>

fun float_int :: "pyfloat \<Rightarrow> int option" where
  "float_int (Whole i _) = Some i"
| "float_int _ = None"

subsection \<open>The Unicode digit test\<close>

text \<open>
  \<^verbatim>\<open>char.isdigit()\<close> holds of the characters whose Unicode Numeric_Type is Decimal or
  Digit. Up to U+00FF these are the ten ASCII digits and the superscripts
  U+00B2, U+00B3 and U+00B9.
\<close>

definition ascii_digit :: "char \<Rightarrow> bool" where
  "ascii_digit c = (c \<in> set ''0123456789'')"

definition isdigit :: "char \<Rightarrow> bool" where
  "isdigit c = (ascii_digit c \<or> c \<in> set [CHR 0xB2, CHR 0xB3, CHR 0xB9])"

section \<open>normalize_value\<close>

text \<open>
  Lines 29 to 57. The slices \<^verbatim>\<open>value_str[trim_start:]\<close> and \<^verbatim>\<open>value_str[:-trim_end]\<close> are
  taken only for positive bounds, where they are \<open>drop\<close> and \<open>take\<close>. No statement of the
  \<^verbatim>\<open>try\<close> body raises on a cell of the model with integer bounds, so the
  \<^verbatim>\<open>except\<close> branch is not reached and has no counterpart here. The case on
  \<open>CFloat\<close> is the test \<^verbatim>\<open>isinstance(value, (float, np.float64, np.float32))\<close>.
\<close>

definition normalize_value :: "cell \<Rightarrow> int \<Rightarrow> int \<Rightarrow> string" where
  "normalize_value value trim_start trim_end =
    (if isna value then ''''
     else
       let value_str = str value;
           value_str = (if trim_start > 0 then drop (nat trim_start) value_str else value_str);
           value_str = (if trim_end > 0
                        then (if trim_end < int (length value_str)
                              then take (length value_str - nat trim_end) value_str
                              else '''')
                        else value_str);
           value_str = filter isdigit value_str
       in (case value of
             CFloat f \<Rightarrow>
               (if is_integer f
                then (case float_int f of Some i \<Rightarrow> str_int i | None \<Rightarrow> value_str)
                else value_str)
           | _ \<Rightarrow> value_str))"

section \<open>remove_accents\<close>

datatype error = TypeError | KeyError

text \<open>
  \<^verbatim>\<open>unicodedata.normalize('NFKD', input_str)\<close> replaces every character by its full
  compatibility decomposition. The two tables are the decomposition mappings of the Unicode
  Character Database for U+0000 to U+00FF: the characters below U+00A0 and those absent
  from both tables have no decomposition. Every character of a decomposition listed here is
  itself without decomposition, and no two combining marks become adjacent, so one pass
  and no reordering give the normal form. A code point is a \<^typ>\<open>nat\<close>, since the marks
  lie beyond U+00FF.
\<close>

type_synonym codepoint = nat

definition canonical_decompositions :: "(codepoint \<times> codepoint list) list" where
  "canonical_decompositions =
    [(0xC0, [0x41, 0x300]), (0xC1, [0x41, 0x301]), (0xC2, [0x41, 0x302]), (0xC3, [0x41, 0x303]),
     (0xC4, [0x41, 0x308]), (0xC5, [0x41, 0x30A]), (0xC7, [0x43, 0x327]),
     (0xC8, [0x45, 0x300]), (0xC9, [0x45, 0x301]), (0xCA, [0x45, 0x302]), (0xCB, [0x45, 0x308]),
     (0xCC, [0x49, 0x300]), (0xCD, [0x49, 0x301]), (0xCE, [0x49, 0x302]), (0xCF, [0x49, 0x308]),
     (0xD1, [0x4E, 0x303]),
     (0xD2, [0x4F, 0x300]), (0xD3, [0x4F, 0x301]), (0xD4, [0x4F, 0x302]), (0xD5, [0x4F, 0x303]),
     (0xD6, [0x4F, 0x308]),
     (0xD9, [0x55, 0x300]), (0xDA, [0x55, 0x301]), (0xDB, [0x55, 0x302]), (0xDC, [0x55, 0x308]),
     (0xDD, [0x59, 0x301]),
     (0xE0, [0x61, 0x300]), (0xE1, [0x61, 0x301]), (0xE2, [0x61, 0x302]), (0xE3, [0x61, 0x303]),
     (0xE4, [0x61, 0x308]), (0xE5, [0x61, 0x30A]), (0xE7, [0x63, 0x327]),
     (0xE8, [0x65, 0x300]), (0xE9, [0x65, 0x301]), (0xEA, [0x65, 0x302]), (0xEB, [0x65, 0x308]),
     (0xEC, [0x69, 0x300]), (0xED, [0x69, 0x301]), (0xEE, [0x69, 0x302]), (0xEF, [0x69, 0x308]),
     (0xF1, [0x6E, 0x303]),
     (0xF2, [0x6F, 0x300]), (0xF3, [0x6F, 0x301]), (0xF4, [0x6F, 0x302]), (0xF5, [0x6F, 0x303]),
     (0xF6, [0x6F, 0x308]),
     (0xF9, [0x75, 0x300]), (0xFA, [0x75, 0x301]), (0xFB, [0x75, 0x302]), (0xFC, [0x75, 0x308]),
     (0xFD, [0x79, 0x301]), (0xFF, [0x79, 0x308])]"

definition compatibility_decompositions :: "(codepoint \<times> codepoint list) list" where
  "compatibility_decompositions =
    [(0xA0, [0x20]), (0xA8, [0x20, 0x308]), (0xAA, [0x61]), (0xAF, [0x20, 0x304]),
     (0xB2, [0x32]), (0xB3, [0x33]), (0xB4, [0x20, 0x301]), (0xB5, [0x3BC]),
     (0xB8, [0x20, 0x327]), (0xB9, [0x31]), (0xBA, [0x6F]),
     (0xBC, [0x31, 0x2044, 0x34]), (0xBD, [0x31, 0x2044, 0x32]), (0xBE, [0x33, 0x2044, 0x34])]"

definition decompose_NFKD :: "codepoint \<Rightarrow> codepoint list" where
  "decompose_NFKD c =
    (case map_of (canonical_decompositions @ compatibility_decompositions) c of
       Some d \<Rightarrow> d
     | None \<Rightarrow> [c])"

text \<open>The call raises \<^verbatim>\<open>TypeError\<close> when its argument is not a \<^verbatim>\<open>str\<close>.\<close>

fun unicodedata_normalize_NFKD :: "cell \<Rightarrow> error + codepoint list" where
  "unicodedata_normalize_NFKD (CStr s) = Inr (concat (map (\<lambda>c. decompose_NFKD (of_char c)) s))"
| "unicodedata_normalize_NFKD _ = Inl TypeError"

text \<open>\<^verbatim>\<open>encode('ASCII', 'ignore')\<close> leaves out what ASCII cannot encode;
  \<^verbatim>\<open>decode('ASCII')\<close> reads the bytes back as text.\<close>

definition encode_ASCII_ignore :: "codepoint list \<Rightarrow> nat list" where
  "encode_ASCII_ignore nfkd_form = filter (\<lambda>c. c < 128) nfkd_form"

definition decode_ASCII :: "nat list \<Rightarrow> string" where
  "decode_ASCII only_ascii = map char_of only_ascii"

text \<open>Lines 18 to 27: on any exception the argument is returned as it came.\<close>

definition remove_accents :: "cell \<Rightarrow> cell" where
  "remove_accents input_str =
    (case unicodedata_normalize_NFKD input_str of
       Inl _ \<Rightarrow> input_str
     | Inr nfkd_form \<Rightarrow>
         (let only_ascii = encode_ASCII_ignore nfkd_form
          in CStr (decode_ASCII only_ascii)))"

text \<open>
  What the specification asks of the same step, in its words: canonical decomposition, the
  combining diacritical marks (U+0300 to U+036F) removed, everything else kept.
\<close>

definition decompose_NFD :: "codepoint \<Rightarrow> codepoint list" where
  "decompose_NFD c = (case map_of canonical_decompositions c of Some d \<Rightarrow> d | None \<Rightarrow> [c])"

definition combining_mark :: "codepoint \<Rightarrow> bool" where
  "combining_mark c = (0x300 \<le> c \<and> c \<le> 0x36F)"

definition spec_strip_accents :: "string \<Rightarrow> codepoint list" where
  "spec_strip_accents s =
    filter (\<lambda>c. \<not> combining_mark c) (concat (map (\<lambda>c. decompose_NFD (of_char c)) s))"

section \<open>Data frames\<close>

text \<open>
  A data frame is its column labels and its rows, each row with one cell per column.
  Labels are looked up by their first position, so the model is that of frames whose
  labels are distinct, as the readers of pandas and the column selectors of the page
  produce them. The row index of pandas plays no part in the comparison and is left out.
  The dtype of a column is not stored: each cell carries its own kind, and a column of
  dtype int64 or float64 is one whose cells are all integers or all floats.
\<close>

record table =
  columns :: "string list"
  rows :: "cell list list"

fun get_loc :: "string list \<Rightarrow> string \<Rightarrow> nat option" where
  "get_loc [] name = None"
| "get_loc (c # cs) name = (if c = name then Some 0 else map_option Suc (get_loc cs name))"

definition cell_at :: "cell list \<Rightarrow> nat \<Rightarrow> cell" where
  "cell_at r i = (if i < length r then r ! i else CNone)"

text \<open>\<^verbatim>\<open>df[name]\<close>, \<^verbatim>\<open>df[[name, ...]]\<close> and \<^verbatim>\<open>df[name] = values\<close>.\<close>

definition getitem_column :: "table \<Rightarrow> string \<Rightarrow> error + cell list" where
  "getitem_column df name =
    (case get_loc (columns df) name of
       None \<Rightarrow> Inl KeyError
     | Some i \<Rightarrow> Inr (map (\<lambda>r. cell_at r i) (rows df)))"

definition getitem_columns :: "table \<Rightarrow> string list \<Rightarrow> error + table" where
  "getitem_columns df names =
    (if list_all (\<lambda>n. get_loc (columns df) n \<noteq> None) names
     then Inr \<lparr>columns = names,
               rows = map (\<lambda>r. map (\<lambda>n. case get_loc (columns df) n of
                                              Some i \<Rightarrow> cell_at r i
                                            | None \<Rightarrow> CNone) names) (rows df)\<rparr>
     else Inl KeyError)"

definition setitem_column :: "table \<Rightarrow> string \<Rightarrow> cell list \<Rightarrow> table" where
  "setitem_column df name values =
    (case get_loc (columns df) name of
       Some i \<Rightarrow> df\<lparr>rows := map (\<lambda>(r, v). r[i := v]) (zip (rows df) values)\<rparr>
     | None \<Rightarrow> df\<lparr>columns := columns df @ [name],
                    rows := map (\<lambda>(r, v). r @ [v]) (zip (rows df) values)\<rparr>)"

text \<open>Lines 59 to 66. An empty or absent \<^verbatim>\<open>new_column_name\<close> is falsy.\<close>

definition normalize_column ::
  "table \<Rightarrow> string \<Rightarrow> string option \<Rightarrow> int \<Rightarrow> int \<Rightarrow> error + table" where
  "normalize_column df column_name new_column_name trim_start trim_end =
    (case getitem_column df column_name of
       Inl e \<Rightarrow> Inl e
     | Inr col \<Rightarrow>
         (let normalized = map (\<lambda>x. CStr (normalize_value x trim_start trim_end)) col
          in (case new_column_name of
                Some n \<Rightarrow>
                  (if n \<noteq> [] then Inr (setitem_column df n normalized)
                   else Inr (setitem_column df column_name normalized))
              | None \<Rightarrow> Inr (setitem_column df column_name normalized))))"

text \<open>
  \<^verbatim>\<open>drop_duplicates(subset=[column_name])\<close> keeps a row when its key was not seen in an
  earlier row; \<open>seen\<close> holds the keys met so far. Keys are compared as cells of the
  model, which is the comparison of pandas within a column of one kind of value.
\<close>

fun drop_duplicates :: "('r \<Rightarrow> 'k) \<Rightarrow> 'k list \<Rightarrow> 'r list \<Rightarrow> 'r list" where
  "drop_duplicates key seen [] = []"
| "drop_duplicates key seen (r # rs) =
    (if key r \<in> set seen then drop_duplicates key seen rs
     else r # drop_duplicates key (key r # seen) rs)"

text \<open>Lines 68 to 70.\<close>

definition get_unique_records :: "table \<Rightarrow> string \<Rightarrow> error + table" where
  "get_unique_records df column_name =
    (case get_loc (columns df) column_name of
       None \<Rightarrow> Inl KeyError
     | Some i \<Rightarrow> Inr (df\<lparr>rows := drop_duplicates (\<lambda>r. cell_at r i) [] (rows df)\<rparr>))"

text \<open>
  \<^verbatim>\<open>pd.merge(left, right, on=name, how='inner')\<close>: every left row, in order, is paired
  with the right rows of the same key, in order. The key column of the right frame is not
  repeated, and a label that both frames carry beside the key gets the suffixes
  \<^verbatim>\<open>_x\<close> and \<^verbatim>\<open>_y\<close>.
\<close>

definition remove_nth :: "nat \<Rightarrow> 'a list \<Rightarrow> 'a list" where
  "remove_nth j xs = take j xs @ drop (Suc j) xs"

definition pd_merge :: "table \<Rightarrow> table \<Rightarrow> string \<Rightarrow> error + table" where
  "pd_merge left right on =
    (case get_loc (columns left) on of
       None \<Rightarrow> Inl KeyError
     | Some i \<Rightarrow>
        (case get_loc (columns right) on of
           None \<Rightarrow> Inl KeyError
         | Some j \<Rightarrow>
            Inr \<lparr>columns =
                   map (\<lambda>c. if c \<noteq> on \<and> c \<in> set (columns right) then c @ ''_x'' else c)
                     (columns left)
                   @ map (\<lambda>c. if c \<in> set (columns left) then c @ ''_y'' else c)
                       (remove_nth j (columns right)),
                 rows =
                   concat (map (\<lambda>l. map (\<lambda>r. l @ remove_nth j r)
                                         (filter (\<lambda>r. cell_at r j = cell_at l i) (rows right)))
                               (rows left))\<rparr>))"

section \<open>The comparison of main\<close>

text \<open>
  Lines 355 to 460, the body of the button handler. Each entry of \<^verbatim>\<open>data_sources\<close> holds
  the frame, the key column, the additional columns and the trimming options of one
  source. The page takes the additional columns from a multiselect over the columns of the
  frame, so they are distinct labels of the frame.
\<close>

record trim_options =
  enable :: bool
  trim_start :: int
  trim_end :: int

record data_source =
  data :: table
  selected_column :: string
  additional_columns :: "string list"
  trim_options :: trim_options

record statistics =
  total_records :: int
  total_unique :: int
  unique_matches :: int
  unique_non_matches :: int
  duplicate_matches :: int
  duplicate_non_matches :: int

text \<open>
  The frames the handler builds: the two projections, the join, the rows of the second
  projection without partner, and the two frames it stores, with the statistics.
\<close>

record comparison =
  merge_data1 :: table
  merge_data2 :: table
  matches :: table
  non_matches :: table
  stored_unique_matches :: table
  stored_unique_non_matches :: table
  stored_statistics :: statistics

text \<open>Lines 374 to 388: the bounds count only when trimming is enabled.\<close>

definition normalized_data :: "data_source \<Rightarrow> error + table" where
  "normalized_data src =
    normalize_column (data src) (selected_column src) (Some ''normalized_key'')
      (if enable (trim_options src) then trim_start (trim_options src) else 0)
      (if enable (trim_options src) then trim_end (trim_options src) else 0)"

text \<open>Lines 391 to 406: the key with the additional columns, renamed by the side's tag.\<close>

definition renamed :: "string list \<Rightarrow> string \<Rightarrow> string list" where
  "renamed selected_cols tag = map (\<lambda>col. col @ tag) selected_cols"

definition merge_data :: "table \<Rightarrow> string list \<Rightarrow> string \<Rightarrow> error + table" where
  "merge_data normalized selected_cols tag =
    (if selected_cols \<noteq> []
     then (case getitem_columns normalized (''normalized_key'' # selected_cols) of
             Inl e \<Rightarrow> Inl e
           | Inr projected \<Rightarrow>
               Inr (projected\<lparr>columns := ''normalized_key'' # renamed selected_cols tag\<rparr>))
     else getitem_columns normalized [''normalized_key''])"

text \<open>Line 417: the rows of the second projection whose key the first one does not hold.\<close>

definition not_isin :: "table \<Rightarrow> table \<Rightarrow> error + table" where
  "not_isin md2 md1 =
    (case getitem_column md2 ''normalized_key'' of
       Inl e \<Rightarrow> Inl e
     | Inr keys2 \<Rightarrow>
        (case getitem_column md1 ''normalized_key'' of
           Inl e \<Rightarrow> Inl e
         | Inr keys1 \<Rightarrow>
             Inr (md2\<lparr>rows := map fst (filter (\<lambda>(r, k). k \<notin> set keys1)
                                                 (zip (rows md2) keys2))\<rparr>)))"

text \<open>Lines 420 and 421: one column of \<^verbatim>\<open>np.nan\<close> for each renamed column of source 1.\<close>

definition add_nan_columns :: "table \<Rightarrow> string list \<Rightarrow> table" where
  "add_nan_columns df cols =
    fold (\<lambda>col_renamed d. setitem_column d col_renamed
                            (replicate (length (rows d)) (CFloat NaN))) cols df"

text \<open>
  Two behaviours of pandas that the program does not fix are parameters of the model.
  \<^verbatim>\<open>astype(str)\<close> renders a missing value as text (\<^verbatim>\<open>nan\<close>, \<^verbatim>\<open>None\<close>) in pandas
  before 3.0 and leaves it missing from 3.0 on, and the repository pins no version. The
  float64 that an integer converts to is the other one: the model does no floating-point
  arithmetic.
\<close>

record pandas =
  astype_str_keeps_missing :: bool
  float64_of_int :: "int \<Rightarrow> pyfloat"

text \<open>
  \<^verbatim>\<open>Series.apply\<close> builds its result with \<^verbatim>\<open>lib.maybe_convert_objects\<close>, which infers
  the dtype of the mapped values anew. The scan of the values ends with an object column
  at the first text, and at an integer outside the 64-bit ranges unless a \<^verbatim>\<open>None\<close>
  came before it; \<open>seen_object\<close> carries the flags for a \<^verbatim>\<open>None\<close>, an integer above the
  int64 maximum and a negative integer seen so far. Otherwise the values become float64
  when a float is among them, or a \<^verbatim>\<open>None\<close> beside an integer: \<^verbatim>\<open>None\<close> becomes
  \<^verbatim>\<open>nan\<close> and an integer its float. In every other case the values stay as they are.
\<close>

fun seen_object :: "bool \<Rightarrow> bool \<Rightarrow> bool \<Rightarrow> cell list \<Rightarrow> bool" where
  "seen_object seen_null seen_uint seen_sint [] = False"
| "seen_object seen_null seen_uint seen_sint (CStr s # vals) = True"
| "seen_object seen_null seen_uint seen_sint (CNone # vals) =
    seen_object True seen_uint seen_sint vals"
| "seen_object seen_null seen_uint seen_sint (CFloat f # vals) =
    seen_object seen_null seen_uint seen_sint vals"
| "seen_object seen_null seen_uint seen_sint (CInt val # vals) =
    (if seen_null then seen_object seen_null seen_uint seen_sint vals
     else if ((seen_uint \<or> 2 ^ 63 - 1 < val) \<and> (seen_sint \<or> val < 0))
             \<or> 2 ^ 64 - 1 < val \<or> val < - (2 ^ 63)
          then True
          else seen_object seen_null (seen_uint \<or> 2 ^ 63 - 1 < val) (seen_sint \<or> val < 0) vals)"

fun is_float_cell :: "cell \<Rightarrow> bool" where
  "is_float_cell (CFloat f) = True"
| "is_float_cell c = False"

fun is_int_cell :: "cell \<Rightarrow> bool" where
  "is_int_cell (CInt i) = True"
| "is_int_cell c = False"

definition converts_to_float64 :: "cell list \<Rightarrow> bool" where
  "converts_to_float64 vals =
    (\<not> seen_object False False False vals
     \<and> (list_ex is_float_cell vals \<or> (CNone \<in> set vals \<and> list_ex is_int_cell vals)))"

fun as_float64 :: "pandas \<Rightarrow> cell \<Rightarrow> cell" where
  "as_float64 pd CNone = CFloat NaN"
| "as_float64 pd (CInt i) = CFloat (float64_of_int pd i)"
| "as_float64 pd c = c"

definition maybe_convert_objects :: "pandas \<Rightarrow> cell list \<Rightarrow> cell list" where
  "maybe_convert_objects pd vals =
    (if converts_to_float64 vals then map (as_float64 pd) vals else vals)"

text \<open>
  Lines 432 to 434. The loop runs over the columns of dtype object and replaces each by
  \<^verbatim>\<open>df_out[col].apply(remove_accents)\<close>. A cell that is a \<^verbatim>\<open>str\<close> lies in such a
  column. On a column of another dtype, which holds integers only or floats only, the
  function and the conversion change nothing, so the loop amounts to mapping and
  converting every column. The columns are taken by position, which for distinct labels
  is the assignment by label; the rows are then read back from the new columns.
\<close>

definition apply_remove_accents :: "pandas \<Rightarrow> table \<Rightarrow> table" where
  "apply_remove_accents pd df_out =
    (let new_columns =
           map (\<lambda>j. maybe_convert_objects pd
                       (map (\<lambda>r. remove_accents (cell_at r j)) (rows df_out)))
               [0..<length (columns df_out)]
     in df_out\<lparr>rows := map (\<lambda>i. map (\<lambda>col. cell_at col i) new_columns)
                              [0..<length (rows df_out)]\<rparr>)"

text \<open>
  Lines 437 and 438: every cell is rendered with \<^const>\<open>str\<close>, except that a missing value
  stays missing where pandas keeps it so.
\<close>

definition astype_str :: "pandas \<Rightarrow> table \<Rightarrow> table" where
  "astype_str pd df =
    df\<lparr>rows := map (map (\<lambda>c. if astype_str_keeps_missing pd \<and> isna c then CFloat NaN
                                else CStr (str c))) (rows df)\<rparr>"

definition len :: "table \<Rightarrow> int" where
  "len df = int (length (rows df))"

text \<open>An exception of one step ends the handler: the steps are chained by \<open>and_then\<close>.\<close>

definition and_then :: "error + 'a \<Rightarrow> ('a \<Rightarrow> error + 'b) \<Rightarrow> error + 'b" where
  "and_then m f = (case m of Inl e \<Rightarrow> Inl e | Inr x \<Rightarrow> f x)"

definition main_compare :: "pandas \<Rightarrow> data_source \<Rightarrow> data_source \<Rightarrow> error + comparison" where
  "main_compare pd src1 src2 =
    and_then (normalized_data src1) (\<lambda>normalized_data1.
    and_then (normalized_data src2) (\<lambda>normalized_data2.
    and_then (merge_data normalized_data1 (additional_columns src1) ''_dataset1'') (\<lambda>md1.
    and_then (merge_data normalized_data2 (additional_columns src2) ''_dataset2'') (\<lambda>md2.
    and_then (pd_merge md2 md1 ''normalized_key'') (\<lambda>ms.
    and_then (not_isin md2 md1) (\<lambda>nm0.
    and_then (getitem_columns
                (add_nan_columns nm0 (renamed (additional_columns src1) ''_dataset1''))
                (''normalized_key'' # renamed (additional_columns src2) ''_dataset2''
                   @ renamed (additional_columns src1) ''_dataset1'')) (\<lambda>nms.
    and_then (get_unique_records ms ''normalized_key'') (\<lambda>um.
    and_then (get_unique_records nms ''normalized_key'') (\<lambda>unm.
    and_then (get_unique_records (data src2) (selected_column src2)) (\<lambda>unique2.
      (let um' = astype_str pd (apply_remove_accents pd um);
           unm' = astype_str pd (apply_remove_accents pd unm)
       in Inr \<lparr>merge_data1 = md1, merge_data2 = md2, matches = ms, non_matches = nms,
                stored_unique_matches = um', stored_unique_non_matches = unm',
                stored_statistics =
                  \<lparr>total_records = len (data src2),
                   total_unique = len unique2,
                   unique_matches = len um',
                   unique_non_matches = len unm',
                   duplicate_matches = len ms - len um',
                   duplicate_non_matches = len nms - len unm'\<rparr>\<rparr>)))))))))))"

section \<open>Examples of the specification\<close>

text \<open>The table of the deduplication example: keys 1, 2, 1 with values a, b, c.\<close>

definition dedup_example :: table where
  "dedup_example =
    \<lparr>columns = [''k'', ''v''],
     rows = [[CInt 1, CStr ''a''], [CInt 2, CStr ''b''], [CInt 1, CStr ''c'']]\<rparr>"

text \<open>
  The inner equi-join in the words of the specification, for frames whose first column is
  the key: every pair of a left row and a right row with the same key, the left row
  followed by the right row without its key.
\<close>

definition equi_join :: "cell list list \<Rightarrow> cell list list \<Rightarrow> cell list list" where
  "equi_join left right =
    map (\<lambda>(l, r). l @ tl r)
      (filter (\<lambda>(l, r). cell_at l 0 = cell_at r 0) (List.product left right))"

text \<open>The sources of the scenario: keys 001, 002 against keys 1, 2, 3, nothing else.\<close>

definition no_trim :: trim_options where
  "no_trim = \<lparr>enable = False, trim_start = 0, trim_end = 0\<rparr>"

definition keys_only :: "string list \<Rightarrow> data_source" where
  "keys_only ks =
    \<lparr>data = \<lparr>columns = [''key''], rows = map (\<lambda>k. [CStr k]) ks\<rparr>,
     selected_column = ''key'', additional_columns = [], trim_options = no_trim\<rparr>"

text \<open>
  Two sources with additional columns: the second has a repeated key, a key without
  partner, an accented name and cells that are not text.
\<close>

definition example_source1 :: data_source where
  "example_source1 =
    \<lparr>data = \<lparr>columns = [''id'', ''name''],
             rows = [[CInt 1, CStr ''a''], [CInt 2, CStr ''b''], [CInt 2, CStr ''c'']]\<rparr>,
     selected_column = ''id'', additional_columns = [''name''], trim_options = no_trim\<rparr>"

definition example_source2 :: data_source where
  "example_source2 =
    \<lparr>data = \<lparr>columns = [''id'', ''nom'', ''v''],
             rows = [[CStr ''1'', CStr ''x'', CInt 5],
                     [CStr ''2'', CStr ''y'', CNone],
                     [CStr ''3'', CStr [CHR ''J'', CHR ''o'', CHR ''s'', CHR 0xE9],
                        CFloat (Fractional ''2.5'')],
                     [CStr ''1'', CStr ''w'', CInt 5]]\<rparr>,
     selected_column = ''id'', additional_columns = [''nom'', ''v''], trim_options = no_trim\<rparr>"

text \<open>
  pandas before 3.0 and from 3.0 on. An integer of at most \<open>2 ^ 53\<close> in absolute value
  is a float64 exactly, rendered in fixed notation; the examples hold no other integer.
\<close>

definition float64_exact :: "int \<Rightarrow> pyfloat" where
  "float64_exact i = Whole i (str_int i @ ''.0'')"

definition pandas2 :: pandas where
  "pandas2 = \<lparr>astype_str_keeps_missing = False, float64_of_int = float64_exact\<rparr>"

definition pandas3 :: pandas where
  "pandas3 = \<lparr>astype_str_keeps_missing = True, float64_of_int = float64_exact\<rparr>"

text \<open>A column without text: an integer beside \<^verbatim>\<open>None\<close>.\<close>

definition textless_example :: table where
  "textless_example = \<lparr>columns = [''v''], rows = [[CInt 5], [CNone]]\<rparr>"

text \<open>What the handler builds from the two sources under pandas before 3.0.\<close>

definition example_comparison :: comparison where
  "example_comparison =
    \<lparr>merge_data1 =
       \<lparr>columns = [''normalized_key'', ''name_dataset1''],
        rows = [[CStr ''1'', CStr ''a''], [CStr ''2'', CStr ''b''], [CStr ''2'', CStr ''c'']]\<rparr>,
     merge_data2 =
       \<lparr>columns = [''normalized_key'', ''nom_dataset2'', ''v_dataset2''],
        rows = [[CStr ''1'', CStr ''x'', CInt 5],
                [CStr ''2'', CStr ''y'', CNone],
                [CStr ''3'', CStr [CHR ''J'', CHR ''o'', CHR ''s'', CHR 0xE9],
                   CFloat (Fractional ''2.5'')],
                [CStr ''1'', CStr ''w'', CInt 5]]\<rparr>,
     matches =
       \<lparr>columns = [''normalized_key'', ''nom_dataset2'', ''v_dataset2'', ''name_dataset1''],
        rows = [[CStr ''1'', CStr ''x'', CInt 5, CStr ''a''],
                [CStr ''2'', CStr ''y'', CNone, CStr ''b''],
                [CStr ''2'', CStr ''y'', CNone, CStr ''c''],
                [CStr ''1'', CStr ''w'', CInt 5, CStr ''a'']]\<rparr>,
     non_matches =
       \<lparr>columns = [''normalized_key'', ''nom_dataset2'', ''v_dataset2'', ''name_dataset1''],
        rows = [[CStr ''3'', CStr [CHR ''J'', CHR ''o'', CHR ''s'', CHR 0xE9],
                   CFloat (Fractional ''2.5''), CFloat NaN]]\<rparr>,
     stored_unique_matches =
       \<lparr>columns = [''normalized_key'', ''nom_dataset2'', ''v_dataset2'', ''name_dataset1''],
        rows = [[CStr ''1'', CStr ''x'', CStr ''5.0'', CStr ''a''],
                [CStr ''2'', CStr ''y'', CStr ''nan'', CStr ''b'']]\<rparr>,
     stored_unique_non_matches =
       \<lparr>columns = [''normalized_key'', ''nom_dataset2'', ''v_dataset2'', ''name_dataset1''],
        rows = [[CStr ''3'', CStr ''Jose'', CStr ''2.5'', CStr ''nan'']]\<rparr>,
     stored_statistics =
       \<lparr>total_records = 4, total_unique = 3, unique_matches = 2, unique_non_matches = 1,
        duplicate_matches = 2, duplicate_non_matches = 0\<rparr>\<rparr>"

section \<open>Properties of normalize_value\<close>

lemma digit_char_ascii: "d < 10 \<Longrightarrow> ascii_digit (digit_char d)"
  unfolding ascii_digit_def digit_char_def by (rule nth_mem) simp

lemma str_nat_ascii: "c \<in> set (str_nat n) \<Longrightarrow> ascii_digit c"
proof (induction n arbitrary: c rule: str_nat.induct)
  case (1 n)
  show ?case
  proof (cases "n < 10")
    case True
    with "1.prems" show ?thesis
      by (simp add: str_nat.simps [of n] digit_char_ascii)
  next
    case False
    with "1.prems" have "c \<in> set (str_nat (n div 10)) \<or> c = digit_char (n mod 10)"
      by (auto simp: str_nat.simps [of n])
    then show ?thesis
      using "1.IH" [OF False] digit_char_ascii [of "n mod 10"] by auto
  qed
qed

lemma str_int_nonneg_ascii: "0 \<le> i \<Longrightarrow> c \<in> set (str_int i) \<Longrightarrow> ascii_digit c"
  by (simp add: str_int_def str_nat_ascii)

lemma str_nat_42: "str_nat 42 = ''42''"
  by (simp add: str_nat.simps [of 42] str_nat.simps [of 4] digit_char_def)

text \<open>
  Claim C1, as the program has it. For every value that is not a negative float with zero
  fractional part, and for all trimming bounds, every character of the text returned by
  \<^const>\<open>normalize_value\<close> passes the Unicode digit test \<^verbatim>\<open>str.isdigit\<close>: the result may
  be empty, and beside \<^verbatim>\<open>0\<close> to \<^verbatim>\<open>9\<close> it may hold other digit characters such as
  the superscript two.
\<close>

theorem normalize_value_only_isdigit:
  assumes "\<forall>i s. value = CFloat (Whole i s) \<longrightarrow> 0 \<le> i"
  shows "\<forall>c \<in> set (normalize_value value tstart tend). isdigit c"
proof (cases "\<exists>i s. value = CFloat (Whole i s)")
  case True
  then obtain i s where v: "value = CFloat (Whole i s)" by blast
  with assms have "0 \<le> i" by simp
  moreover have "normalize_value value tstart tend = str_int i"
    by (simp add: v normalize_value_def Let_def)
  ultimately show ?thesis
    by (auto simp: isdigit_def dest: str_int_nonneg_ascii)
next
  case False
  show ?thesis
  proof (cases "value")
    case (CFloat f)
    with False show ?thesis
      by (cases f) (auto simp: normalize_value_def Let_def)
  qed (auto simp: normalize_value_def Let_def)
qed

theorem normalize_value_only_isdigit_witness:
  "list_all isdigit (normalize_value (CStr ''AB-12-34'') 3 1)
   \<and> normalize_value (CStr ''AB-12-34'') 3 1 = ''123''"
  using normalize_value_only_isdigit [of "CStr ''AB-12-34''" 3 1]
  by (simp add: list_all_iff normalize_value_def isdigit_def ascii_digit_def)

text \<open>
  Claim C1 as stated fails: the text \<^verbatim>\<open>x\<close> followed by the superscript two (U+00B2)
  is normalised to the superscript two, which is not one of \<^verbatim>\<open>0\<close> to \<^verbatim>\<open>9\<close>.
\<close>

theorem normalize_value_superscript_counterexample:
  "normalize_value (CStr [CHR ''x'', CHR 0xB2]) 0 0 = [CHR 0xB2] \<and> \<not> ascii_digit (CHR 0xB2)"
  by (simp add: normalize_value_def isdigit_def ascii_digit_def)

text \<open>
  Claim C2. For a float with zero fractional part the program sets the result to the
  integer form after trimming and filtering, so neither is applied to it, whatever the
  bounds:
  \<^verbatim>\<open>normalize_value(-42.0)\<close> is \<^verbatim>\<open>"-42"\<close>, with the sign, and
  \<^verbatim>\<open>normalize_value(42.0, 1, 0)\<close> is \<^verbatim>\<open>"42"\<close> where \<^verbatim>\<open>normalize_value(42, 1, 0)\<close> is
  \<^verbatim>\<open>"2"\<close>. Without trimming, \<^verbatim>\<open>42.0\<close> and \<^verbatim>\<open>42\<close> both give \<^verbatim>\<open>"42"\<close>.
\<close>

theorem normalize_value_whole_float_skips_trim_and_filter:
  "(\<forall>i s tstart tend. normalize_value (CFloat (Whole i s)) tstart tend = str_int i)
   \<and> normalize_value (CFloat (Whole (- 42) ''-42.0'')) 0 0 = ''-42''
   \<and> normalize_value (CFloat (Whole 42 ''42.0'')) 1 0 = ''42''
   \<and> normalize_value (CInt 42) 1 0 = ''2''
   \<and> normalize_value (CFloat (Whole 42 ''42.0'')) 0 0 = ''42''
   \<and> normalize_value (CInt 42) 0 0 = ''42''"
  by (simp add: normalize_value_def str_int_def str_nat_42 isdigit_def ascii_digit_def)

section \<open>Properties of get_unique_records\<close>

lemma drop_duplicates_subseq: "subseq (drop_duplicates key seen rs) rs"
  by (induction rs arbitrary: seen) auto

lemma drop_duplicates_keys:
  "set (map key (drop_duplicates key seen rs)) = key ` set rs - set seen"
  by (induction rs arbitrary: seen) auto

lemma drop_duplicates_distinct: "distinct (map key (drop_duplicates key seen rs))"
  by (induction rs arbitrary: seen) (auto simp: drop_duplicates_keys [simplified])

lemma drop_duplicates_first:
  "x \<in> set (drop_duplicates key seen rs) \<Longrightarrow> find (\<lambda>r. key r = key x) rs = Some x"
proof (induction rs arbitrary: seen)
  case Nil
  then show ?case by simp
next
  case (Cons r rs)
  show ?case
  proof (cases "key r \<in> set seen")
    case True
    with Cons.prems have x: "x \<in> set (drop_duplicates key seen rs)" by simp
    then have "key x \<in> set (map key (drop_duplicates key seen rs))" by simp
    then have "key x \<notin> set seen" unfolding drop_duplicates_keys by simp
    with True have "key r \<noteq> key x" by auto
    with Cons.IH [OF x] show ?thesis by simp
  next
    case False
    with Cons.prems have "x = r \<or> x \<in> set (drop_duplicates key (key r # seen) rs)" by simp
    then show ?thesis
    proof
      assume "x = r" then show ?thesis by simp
    next
      assume x: "x \<in> set (drop_duplicates key (key r # seen) rs)"
      then have "key x \<in> set (map key (drop_duplicates key (key r # seen) rs))" by simp
      then have "key r \<noteq> key x" unfolding drop_duplicates_keys by auto
      with Cons.IH [OF x] show ?thesis by simp
    qed
  qed
qed

lemma length_drop_duplicates: "length (drop_duplicates key [] rs) = card (key ` set rs)"
proof -
  have "length (drop_duplicates key [] rs) = length (map key (drop_duplicates key [] rs))" by simp
  also have "\<dots> = card (set (map key (drop_duplicates key [] rs)))"
    by (rule distinct_card [symmetric]) (rule drop_duplicates_distinct)
  also have "\<dots> = card (key ` set rs)" by (simp only: drop_duplicates_keys) simp
  finally show ?thesis .
qed

text \<open>
  Claim C5. For every frame and every column it has, \<^const>\<open>get_unique_records\<close> returns
  the frame whose rows are a subsequence of the given rows in which every key of the
  column occurs exactly once, each kept row being the first row of the frame with its key;
  for the rows (1, a), (2, b), (1, c) it returns (1, a), (2, b).
\<close>

theorem get_unique_records_first_wins:
  assumes "get_loc (columns df) column_name = Some i"
  shows "\<exists>out. get_unique_records df column_name = Inr out
      \<and> columns out = columns df
      \<and> subseq (rows out) (rows df)
      \<and> distinct (map (\<lambda>r. cell_at r i) (rows out))
      \<and> set (map (\<lambda>r. cell_at r i) (rows out)) = set (map (\<lambda>r. cell_at r i) (rows df))
      \<and> (\<forall>x \<in> set (rows out). find (\<lambda>r. cell_at r i = cell_at x i) (rows df) = Some x)
      \<and> get_unique_records dedup_example ''k''
          = Inr \<lparr>columns = [''k'', ''v''], rows = [[CInt 1, CStr ''a''], [CInt 2, CStr ''b'']]\<rparr>"
proof -
  let ?key = "\<lambda>r. cell_at r i"
  let ?out = "df\<lparr>rows := drop_duplicates ?key [] (rows df)\<rparr>"
  have "get_unique_records df column_name = Inr ?out"
    using assms by (simp add: get_unique_records_def)
  moreover have "subseq (rows ?out) (rows df)"
    by (simp add: drop_duplicates_subseq)
  moreover have "distinct (map ?key (rows ?out))"
    using drop_duplicates_distinct [of ?key "[]" "rows df"] by simp
  moreover have "set (map ?key (rows ?out)) = set (map ?key (rows df))"
    using drop_duplicates_keys [of ?key "[]" "rows df"] by simp
  moreover have "\<forall>x \<in> set (rows ?out). find (\<lambda>r. ?key r = ?key x) (rows df) = Some x"
    using drop_duplicates_first [of _ ?key "[]" "rows df"] by simp
  moreover have "get_unique_records dedup_example ''k''
      = Inr \<lparr>columns = [''k'', ''v''], rows = [[CInt 1, CStr ''a''], [CInt 2, CStr ''b'']]\<rparr>"
    by (simp add: get_unique_records_def dedup_example_def cell_at_def)
  ultimately show ?thesis by simp
qed

theorem get_unique_records_first_wins_witness:
  "get_loc (columns dedup_example) ''k'' = Some 0
   \<and> (\<exists>out. get_unique_records dedup_example ''k'' = Inr out
        \<and> rows out = [[CInt 1, CStr ''a''], [CInt 2, CStr ''b'']])"
  using get_unique_records_first_wins [of dedup_example "''k''" 0]
  by (simp add: dedup_example_def get_unique_records_def cell_at_def)

section \<open>Column lookup and labels\<close>

lemma get_loc_None: "get_loc cs n = None \<longleftrightarrow> n \<notin> set cs"
  by (induction cs) auto

lemma get_loc_Some: "get_loc cs n = Some i \<Longrightarrow> i < length cs \<and> cs ! i = n"
  by (induction cs arbitrary: i) (auto split: if_splits)

lemma get_loc_Some_mem: "get_loc cs n = Some i \<Longrightarrow> n \<in> set cs"
  using get_loc_None [of cs n] by auto

lemma get_loc_append_left: "n \<in> set xs \<Longrightarrow> get_loc (xs @ ys) n = get_loc xs n"
  by (induction xs) auto

lemma get_loc_append_right:
  "n \<notin> set xs \<Longrightarrow>
    get_loc (xs @ ys) n = (case get_loc ys n of None \<Rightarrow> None | Some i \<Rightarrow> Some (length xs + i))"
  by (induction xs) (auto split: option.splits)

lemma get_loc_nth: "distinct cs \<Longrightarrow> i < length cs \<Longrightarrow> get_loc cs (cs ! i) = Some i"
proof (induction cs arbitrary: i)
  case Nil
  then show ?case by simp
next
  case (Cons c cs)
  show ?case
  proof (cases i)
    case 0
    then show ?thesis by simp
  next
    case (Suc j)
    with Cons.prems have "cs ! j \<noteq> c" by auto
    with Suc Cons show ?thesis by auto
  qed
qed

lemma map_lookup_id:
  assumes "distinct cs" and "length r = length cs"
  shows "map (\<lambda>n. case get_loc cs n of Some i \<Rightarrow> cell_at r i | None \<Rightarrow> CNone) cs = r"
proof (rule nth_equalityI)
  show "length (map (\<lambda>n. case get_loc cs n of Some i \<Rightarrow> cell_at r i | None \<Rightarrow> CNone) cs) = length r"
    using assms by simp
next
  fix i
  assume "i < length (map (\<lambda>n. case get_loc cs n of Some i \<Rightarrow> cell_at r i | None \<Rightarrow> CNone) cs)"
  then have i: "i < length cs" by simp
  with assms show "map (\<lambda>n. case get_loc cs n of Some i \<Rightarrow> cell_at r i | None \<Rightarrow> CNone) cs ! i = r ! i"
    by (simp add: get_loc_nth cell_at_def)
qed

subsection \<open>The tags keep the labels apart\<close>

lemma key_not_renamed1: "''normalized_key'' \<notin> set (renamed cols ''_dataset1'')"
proof
  assume "''normalized_key'' \<in> set (renamed cols ''_dataset1'')"
  then obtain c where "''normalized_key'' = c @ ''_dataset1''"
    by (auto simp: renamed_def)
  then have "last ''normalized_key'' = last (c @ ''_dataset1'')" by simp
  then show False by simp
qed

lemma key_not_renamed2: "''normalized_key'' \<notin> set (renamed cols ''_dataset2'')"
proof
  assume "''normalized_key'' \<in> set (renamed cols ''_dataset2'')"
  then obtain c where "''normalized_key'' = c @ ''_dataset2''"
    by (auto simp: renamed_def)
  then have "last ''normalized_key'' = last (c @ ''_dataset2'')" by simp
  then show False by simp
qed

lemma renamed_disjoint:
  "set (renamed cols1 ''_dataset1'') \<inter> set (renamed cols2 ''_dataset2'') = {}"
proof -
  have "c @ ''_dataset1'' \<noteq> d @ ''_dataset2''" for c d :: string
  proof
    assume "c @ ''_dataset1'' = d @ ''_dataset2''"
    then have "last (c @ ''_dataset1'') = last (d @ ''_dataset2'')" by simp
    then show False by simp
  qed
  then show ?thesis by (auto simp: renamed_def)
qed

lemma distinct_renamed: "distinct cols \<Longrightarrow> distinct (renamed cols tag)"
  by (simp add: renamed_def distinct_map inj_on_def)

lemma length_renamed: "length (renamed cols tag) = length cols"
  by (simp add: renamed_def)


section \<open>The steps of the comparison\<close>

lemma zip_replicate_map:
  "map (\<lambda>(r, v). f r v) (zip xs (replicate (length xs) c)) = map (\<lambda>r. f r c) xs"
  by (induction xs) auto

lemma zip_map_filter:
  "map fst (filter (\<lambda>(r, k). P k) (zip xs (map f xs))) = filter (\<lambda>r. P (f r)) xs"
  by (induction xs) auto

lemma length_rows_setitem:
  "length vs = length (rows df) \<Longrightarrow> length (rows (setitem_column df name vs)) = length (rows df)"
  by (simp add: setitem_column_def split: option.splits)

lemma normalized_data_length:
  "normalized_data src = Inr nd \<Longrightarrow> length (rows nd) = length (rows (data src))"
  by (auto simp: normalized_data_def normalize_column_def getitem_column_def Let_def
      length_rows_setitem split: option.splits)

lemma merge_data_shape:
  assumes "merge_data nd cols tag = Inr md"
  shows "columns md = ''normalized_key'' # renamed cols tag"
    and "rows md = map (\<lambda>r. map (\<lambda>n. case get_loc (columns nd) n of Some i \<Rightarrow> cell_at r i | None \<Rightarrow> CNone)
                               (''normalized_key'' # cols)) (rows nd)"
  using assms
  by (auto simp: merge_data_def getitem_columns_def renamed_def split: if_splits sum.splits)

lemma merge_data_width:
  assumes "merge_data nd cols tag = Inr md" and "r \<in> set (rows md)"
  shows "length r = Suc (length cols)"
  using assms(2) unfolding merge_data_shape(2) [OF assms(1)] by auto

lemma merge_data_length:
  assumes "merge_data nd cols tag = Inr md"
  shows "length (rows md) = length (rows nd)"
  unfolding merge_data_shape(2) [OF assms] by simp

lemma remove_nth_0: "remove_nth 0 xs = tl xs"
  by (simp add: remove_nth_def drop_Suc)

lemma pd_merge_shape:
  assumes "columns md2 = ''normalized_key'' # renamed cols2 ''_dataset2''"
    and "columns md1 = ''normalized_key'' # renamed cols1 ''_dataset1''"
  shows "pd_merge md2 md1 ''normalized_key'' =
    Inr \<lparr>columns = ''normalized_key'' # renamed cols2 ''_dataset2'' @ renamed cols1 ''_dataset1'',
         rows = concat (map (\<lambda>l. map (\<lambda>r. l @ tl r)
                                      (filter (\<lambda>r. cell_at r 0 = cell_at l 0) (rows md1)))
                            (rows md2))\<rparr>"
proof -
  have a: "map (\<lambda>c. if c \<noteq> ''normalized_key'' \<and> c \<in> set (columns md1) then c @ ''_x'' else c)
             (columns md2) = ''normalized_key'' # renamed cols2 ''_dataset2''"
    unfolding assms using renamed_disjoint [of cols1 cols2] key_not_renamed2 [of cols2]
    by (auto intro!: map_idI)
  have b: "map (\<lambda>c. if c \<in> set (columns md2) then c @ ''_y'' else c)
             (remove_nth 0 (columns md1)) = renamed cols1 ''_dataset1''"
    unfolding assms remove_nth_0 using renamed_disjoint [of cols1 cols2] key_not_renamed1 [of cols1]
    by (auto intro!: map_idI)
  show ?thesis
    using a b unfolding pd_merge_def assms by (simp add: remove_nth_0)
qed

lemma not_isin_shape:
  assumes "columns md2 = ''normalized_key'' # cs2" and "columns md1 = ''normalized_key'' # cs1"
  shows "not_isin md2 md1 =
    Inr (md2\<lparr>rows := filter (\<lambda>r. cell_at r 0 \<notin> (\<lambda>r. cell_at r 0) ` set (rows md1)) (rows md2)\<rparr>)"
  unfolding not_isin_def getitem_column_def
  by (simp add: assms zip_map_filter)


lemma list_update_replicate_same: "(replicate k x)[j := x] = replicate k x"
proof (induction k arbitrary: j)
  case 0
  then show ?case by simp
next
  case (Suc k)
  then show ?case by (cases j) simp_all
qed

lemma setitem_nan_step:
  assumes cols: "columns df = base @ ex"
    and rws: "rows df = map (\<lambda>r. r @ replicate (length ex) (CFloat NaN)) R"
    and width: "\<forall>r \<in> set R. length r = length base"
    and n: "n \<notin> set base"
  shows "\<exists>ex'. columns (setitem_column df n (replicate (length (rows df)) (CFloat NaN))) = base @ ex'
      \<and> set ex' = insert n (set ex)
      \<and> rows (setitem_column df n (replicate (length (rows df)) (CFloat NaN)))
          = map (\<lambda>r. r @ replicate (length ex') (CFloat NaN)) R"
proof (cases "get_loc (columns df) n")
  case None
  then have "n \<notin> set ex" by (simp add: get_loc_None cols)
  have "rows (setitem_column df n (replicate (length (rows df)) (CFloat NaN)))
      = map (\<lambda>r. r @ [CFloat NaN]) (rows df)"
    using None by (simp add: setitem_column_def zip_replicate_map)
  also have "\<dots> = map (\<lambda>r. r @ replicate (length (ex @ [n])) (CFloat NaN)) R"
    by (simp add: rws replicate_append_same)
  finally show ?thesis
    using None by (intro exI [of _ "ex @ [n]"]) (simp add: setitem_column_def cols)
next
  case (Some i)
  with n obtain j where j: "get_loc ex n = Some j" and i: "i = length base + j"
    by (auto simp: cols get_loc_append_right split: option.splits)
  have mem: "n \<in> set ex" using j by (rule get_loc_Some_mem)
  have "(r @ replicate (length ex) (CFloat NaN))[i := CFloat NaN]
      = r @ replicate (length ex) (CFloat NaN)" if "r \<in> set R" for r
    using that width i by (simp add: list_update_append list_update_replicate_same)
  then have same: "map (\<lambda>r. r[i := CFloat NaN]) (rows df) = rows df"
    unfolding rws by simp
  have "rows (setitem_column df n (replicate (length (rows df)) (CFloat NaN)))
      = map (\<lambda>r. r[i := CFloat NaN]) (rows df)"
    using Some by (simp add: setitem_column_def zip_replicate_map)
  with same have "rows (setitem_column df n (replicate (length (rows df)) (CFloat NaN))) = rows df"
    by simp
  then show ?thesis
    using Some mem by (intro exI [of _ ex]) (auto simp: setitem_column_def cols rws)
qed

lemma add_nan_columns_shape:
  assumes "columns df = base @ ex"
    and "rows df = map (\<lambda>r. r @ replicate (length ex) (CFloat NaN)) R"
    and "\<forall>r \<in> set R. length r = length base"
    and "set names \<inter> set base = {}"
  shows "\<exists>ex'. columns (add_nan_columns df names) = base @ ex'
      \<and> set ex' = set ex \<union> set names
      \<and> rows (add_nan_columns df names) = map (\<lambda>r. r @ replicate (length ex') (CFloat NaN)) R"
  using assms
proof (induction names arbitrary: df ex)
  case Nil
  then show ?case by (simp add: add_nan_columns_def)
next
  case (Cons n names)
  let ?df = "setitem_column df n (replicate (length (rows df)) (CFloat NaN))"
  from Cons.prems have "n \<notin> set base" by auto
  from setitem_nan_step [OF Cons.prems(1) Cons.prems(2) Cons.prems(3) this]
  obtain ex1 where 1: "columns ?df = base @ ex1" "set ex1 = insert n (set ex)"
    "rows ?df = map (\<lambda>r. r @ replicate (length ex1) (CFloat NaN)) R"
    by blast
  from Cons.prems have "set names \<inter> set base = {}" by auto
  from Cons.IH [OF 1(1) 1(3) Cons.prems(3) this]
  obtain ex' where 2: "columns (add_nan_columns ?df names) = base @ ex'"
    "set ex' = set ex1 \<union> set names"
    "rows (add_nan_columns ?df names) = map (\<lambda>r. r @ replicate (length ex') (CFloat NaN)) R"
    by blast
  have "add_nan_columns df (n # names) = add_nan_columns ?df names"
    by (simp add: add_nan_columns_def)
  with 1 2 show ?case by auto
qed

lemma getitem_columns_nan_shape:
  assumes cols: "columns df = base @ ex"
    and rws: "rows df = map (\<lambda>r. r @ replicate (length ex) (CFloat NaN)) R"
    and width: "\<forall>r \<in> set R. length r = length base"
    and names: "set names \<subseteq> set ex" "set names \<inter> set base = {}"
  shows "getitem_columns df (base @ names) =
    Inr \<lparr>columns = base @ names,
         rows = map (\<lambda>r. map (\<lambda>n. case get_loc base n of Some i \<Rightarrow> cell_at r i | None \<Rightarrow> CNone) base
                          @ replicate (length names) (CFloat NaN)) R\<rparr>"
proof -
  have present: "list_all (\<lambda>n. get_loc (columns df) n \<noteq> None) (base @ names)"
    using names(1) by (auto simp: list_all_iff get_loc_None cols)
  have left: "(case get_loc (base @ ex) n of Some i \<Rightarrow> cell_at (r @ replicate (length ex) (CFloat NaN)) i
                | None \<Rightarrow> CNone)
            = (case get_loc base n of Some i \<Rightarrow> cell_at r i | None \<Rightarrow> CNone)"
    if "n \<in> set base" "r \<in> set R" for n r
  proof -
    from that(1) obtain i where i: "get_loc base n = Some i"
      using get_loc_None [of base n] by auto
    then have "i < length r" using get_loc_Some [OF i] width that(2) by simp
    then show ?thesis
      using that(1) i by (simp add: get_loc_append_left cell_at_def nth_append)
  qed
  have right: "(case get_loc (base @ ex) n of Some i \<Rightarrow> cell_at (r @ replicate (length ex) (CFloat NaN)) i
                | None \<Rightarrow> CNone) = CFloat NaN"
    if "n \<in> set names" "r \<in> set R" for n r
  proof -
    from that(1) names have nb: "n \<notin> set base" and "n \<in> set ex" by auto
    then obtain j where j: "get_loc ex n = Some j"
      using get_loc_None [of ex n] by auto
    then have "j < length ex" using get_loc_Some [OF j] by simp
    then show ?thesis
      using nb j width that(2) by (simp add: get_loc_append_right cell_at_def nth_append)
  qed
  have "map (\<lambda>n. case get_loc (base @ ex) n of Some i \<Rightarrow> cell_at (r @ replicate (length ex) (CFloat NaN)) i
                | None \<Rightarrow> CNone) (base @ names)
      = map (\<lambda>n. case get_loc base n of Some i \<Rightarrow> cell_at r i | None \<Rightarrow> CNone) base
          @ replicate (length names) (CFloat NaN)" if "r \<in> set R" for r
  proof -
    have "map (\<lambda>n. case get_loc (base @ ex) n of Some i \<Rightarrow> cell_at (r @ replicate (length ex) (CFloat NaN)) i
                | None \<Rightarrow> CNone) names = map (\<lambda>n. CFloat NaN) names"
      by (rule map_cong [OF refl]) (simp add: right that)
    moreover have "map (\<lambda>n. case get_loc (base @ ex) n of Some i \<Rightarrow> cell_at (r @ replicate (length ex) (CFloat NaN)) i
                | None \<Rightarrow> CNone) base
        = map (\<lambda>n. case get_loc base n of Some i \<Rightarrow> cell_at r i | None \<Rightarrow> CNone) base"
      by (rule map_cong [OF refl]) (simp add: left that)
    ultimately show ?thesis by (simp add: map_replicate_const)
  qed
  then show ?thesis
    using present unfolding getitem_columns_def by (simp add: cols rws cong: map_cong)
qed

lemma nonempty_rows:
  assumes "\<forall>r \<in> set R. length r = Suc n"
  shows "\<forall>r \<in> set R. r \<noteq> []"
  using assms by auto

lemma non_matches_step:
  assumes c2: "columns md2 = ''normalized_key'' # renamed cols2 ''_dataset2''"
    and c1: "columns md1 = ''normalized_key'' # renamed cols1 ''_dataset1''"
    and w: "\<forall>r \<in> set (rows md2). length r = Suc (length cols2)"
  shows "\<exists>nm0. not_isin md2 md1 = Inr nm0
    \<and> getitem_columns (add_nan_columns nm0 (renamed cols1 ''_dataset1''))
        (''normalized_key'' # renamed cols2 ''_dataset2'' @ renamed cols1 ''_dataset1'')
      = Inr \<lparr>columns = ''normalized_key'' # renamed cols2 ''_dataset2'' @ renamed cols1 ''_dataset1'',
             rows = map (\<lambda>r. map (\<lambda>n. case get_loc (columns md2) n of
                                       Some i \<Rightarrow> cell_at r i | None \<Rightarrow> CNone) (columns md2)
                              @ replicate (length cols1) (CFloat NaN))
                        (filter (\<lambda>r. cell_at r 0 \<notin> (\<lambda>r. cell_at r 0) ` set (rows md1))
                                (rows md2))\<rparr>"
proof -
  let ?base = "''normalized_key'' # renamed cols2 ''_dataset2''"
  let ?ren1 = "renamed cols1 ''_dataset1''"
  let ?R = "filter (\<lambda>r. cell_at r 0 \<notin> (\<lambda>r. cell_at r 0) ` set (rows md1)) (rows md2)"
  let ?nm0 = "md2\<lparr>rows := ?R\<rparr>"
  have nm0: "not_isin md2 md1 = Inr ?nm0" by (rule not_isin_shape [OF c2 c1])
  have c0: "columns ?nm0 = ?base @ []" by (simp add: c2)
  have r0: "rows ?nm0 = map (\<lambda>r. r @ replicate (length ([]::string list)) (CFloat NaN)) ?R"
    by simp
  have w': "\<forall>r \<in> set ?R. length r = length ?base"
    using w by (simp add: length_renamed)
  have d: "set ?ren1 \<inter> set ?base = {}"
    using renamed_disjoint [of cols1 cols2] key_not_renamed1 [of cols1] by auto
  from add_nan_columns_shape [OF c0 r0 w' d]
  obtain ex' where ex': "columns (add_nan_columns ?nm0 ?ren1) = ?base @ ex'" "set ex' = set ?ren1"
    "rows (add_nan_columns ?nm0 ?ren1) = map (\<lambda>r. r @ replicate (length ex') (CFloat NaN)) ?R"
    by auto
  have sub: "set ?ren1 \<subseteq> set ex'" using ex'(2) by simp
  from getitem_columns_nan_shape [OF ex'(1) ex'(3) w' sub d]
  have "getitem_columns (add_nan_columns ?nm0 ?ren1) (?base @ ?ren1) =
    Inr \<lparr>columns = ?base @ ?ren1,
         rows = map (\<lambda>r. map (\<lambda>n. case get_loc (columns md2) n of
                                       Some i \<Rightarrow> cell_at r i | None \<Rightarrow> CNone) (columns md2)
                          @ replicate (length cols1) (CFloat NaN)) ?R\<rparr>"
    by (simp add: c2 length_renamed)
  with nm0 show ?thesis by simp
qed

lemma main_compare_Inr:
  assumes "main_compare pd src1 src2 = Inr c"
  obtains nd1 nd2 nm0 um unm unique2 where
    "normalized_data src1 = Inr nd1" 
    "normalized_data src2 = Inr nd2"
    "merge_data nd1 (additional_columns src1) ''_dataset1'' = Inr (merge_data1 c)"
    "merge_data nd2 (additional_columns src2) ''_dataset2'' = Inr (merge_data2 c)"
    "pd_merge (merge_data2 c) (merge_data1 c) ''normalized_key'' = Inr (matches c)"
    "not_isin (merge_data2 c) (merge_data1 c) = Inr nm0"
    "getitem_columns (add_nan_columns nm0 (renamed (additional_columns src1) ''_dataset1''))
       (''normalized_key'' # renamed (additional_columns src2) ''_dataset2''
          @ renamed (additional_columns src1) ''_dataset1'') = Inr (non_matches c)"
    "get_unique_records (matches c) ''normalized_key'' = Inr um"
    "get_unique_records (non_matches c) ''normalized_key'' = Inr unm"
    "get_unique_records (data src2) (selected_column src2) = Inr unique2"
    "stored_unique_matches c = astype_str pd (apply_remove_accents pd um)"
    "stored_unique_non_matches c = astype_str pd (apply_remove_accents pd unm)"
    "stored_statistics c =
       \<lparr>total_records = len (data src2),
        total_unique = len unique2,
        unique_matches = len (astype_str pd (apply_remove_accents pd um)),
        unique_non_matches = len (astype_str pd (apply_remove_accents pd unm)),
        duplicate_matches = len (matches c) - len (astype_str pd (apply_remove_accents pd um)),
        duplicate_non_matches = len (non_matches c) - len (astype_str pd (apply_remove_accents pd unm))\<rparr>"
  using assms unfolding main_compare_def and_then_def
  by (auto simp: Let_def split: sum.splits)


lemma projections_shape:
  assumes "main_compare pd src1 src2 = Inr c"
  shows "columns (merge_data1 c) = ''normalized_key'' # renamed (additional_columns src1) ''_dataset1''"
    and "columns (merge_data2 c) = ''normalized_key'' # renamed (additional_columns src2) ''_dataset2''"
    and "\<forall>r \<in> set (rows (merge_data1 c)). length r = Suc (length (additional_columns src1))"
    and "\<forall>r \<in> set (rows (merge_data2 c)). length r = Suc (length (additional_columns src2))"
    and "length (rows (merge_data1 c)) = length (rows (data src1))"
    and "length (rows (merge_data2 c)) = length (rows (data src2))"
proof -
  from assms obtain nd1 nd2 where
    nd: "normalized_data src1 = Inr nd1" "normalized_data src2 = Inr nd2"
    and md: "merge_data nd1 (additional_columns src1) ''_dataset1'' = Inr (merge_data1 c)"
      "merge_data nd2 (additional_columns src2) ''_dataset2'' = Inr (merge_data2 c)"
    by (rule main_compare_Inr)
  show "columns (merge_data1 c) = ''normalized_key'' # renamed (additional_columns src1) ''_dataset1''"
    by (rule merge_data_shape(1) [OF md(1)])
  show "columns (merge_data2 c) = ''normalized_key'' # renamed (additional_columns src2) ''_dataset2''"
    by (rule merge_data_shape(1) [OF md(2)])
  show "\<forall>r \<in> set (rows (merge_data1 c)). length r = Suc (length (additional_columns src1))"
    using merge_data_width [OF md(1)] by blast
  show "\<forall>r \<in> set (rows (merge_data2 c)). length r = Suc (length (additional_columns src2))"
    using merge_data_width [OF md(2)] by blast
  show "length (rows (merge_data1 c)) = length (rows (data src1))"
    using merge_data_length [OF md(1)] normalized_data_length [OF nd(1)] by simp
  show "length (rows (merge_data2 c)) = length (rows (data src2))"
    using merge_data_length [OF md(2)] normalized_data_length [OF nd(2)] by simp
qed

lemma equi_join_Cons:
  "equi_join (l # L) R =
    map (\<lambda>r. l @ tl r) (filter (\<lambda>r. cell_at r 0 = cell_at l 0) R) @ equi_join L R"
  by (simp add: equi_join_def filter_map comp_def eq_commute)

lemma equi_join_concat:
  "concat (map (\<lambda>l. map (\<lambda>r. l @ tl r) (filter (\<lambda>r. cell_at r 0 = cell_at l 0) R)) L)
    = equi_join L R"
  by (induction L) (simp_all add: equi_join_Cons, simp add: equi_join_def)

lemma cell_at_append_0: "l \<noteq> [] \<Longrightarrow> cell_at (l @ x) 0 = cell_at l 0"
  by (cases l) (simp_all add: cell_at_def)

lemma equi_join_count:
  assumes "\<forall>l \<in> set L. l \<noteq> []"
  shows "length (filter (\<lambda>m. cell_at m 0 = k) (equi_join L R))
    = length (filter (\<lambda>l. cell_at l 0 = k) L) * length (filter (\<lambda>r. cell_at r 0 = k) R)"
  using assms
proof (induction L)
  case Nil
  then show ?case by (simp add: equi_join_def)
next
  case (Cons l L)
  then have l: "l \<noteq> []" by simp
  have "filter (\<lambda>m. cell_at m 0 = k) (map (\<lambda>r. l @ tl r) (filter (\<lambda>r. cell_at r 0 = cell_at l 0) R))
      = (if cell_at l 0 = k then map (\<lambda>r. l @ tl r) (filter (\<lambda>r. cell_at r 0 = k) R) else [])"
    by (simp add: filter_map comp_def cell_at_append_0 [OF l])
  with Cons show ?case by (simp add: equi_join_Cons)
qed

lemma equi_join_keys:
  assumes "\<forall>l \<in> set L. l \<noteq> []"
  shows "(\<lambda>m. cell_at m 0) ` set (equi_join L R)
    = (\<lambda>l. cell_at l 0) ` set L \<inter> (\<lambda>r. cell_at r 0) ` set R"
  using assms
proof (induction L)
  case Nil
  then show ?case by (simp add: equi_join_def)
next
  case (Cons l L)
  then have l: "l \<noteq> []" by simp
  have "(\<lambda>m. cell_at m 0) ` set (map (\<lambda>r. l @ tl r) (filter (\<lambda>r. cell_at r 0 = cell_at l 0) R))
      = {cell_at l 0} \<inter> (\<lambda>r. cell_at r 0) ` set R"
  proof -
    have "(\<lambda>m. cell_at m 0) ` set (map (\<lambda>r. l @ tl r) (filter (\<lambda>r. cell_at r 0 = cell_at l 0) R))
        = (\<lambda>r. cell_at l 0) ` {r \<in> set R. cell_at r 0 = cell_at l 0}"
      by (simp add: image_image cell_at_append_0 [OF l])
    also have "\<dots> = {cell_at l 0} \<inter> (\<lambda>r. cell_at r 0) ` set R"
      by (auto simp: image_iff) metis
    finally show ?thesis .
  qed
  moreover have "(\<lambda>m. cell_at m 0) ` set (equi_join L R)
      = (\<lambda>l. cell_at l 0) ` set L \<inter> (\<lambda>r. cell_at r 0) ` set R"
    using Cons by simp
  moreover have "(\<lambda>m. cell_at m 0) ` set (equi_join (l # L) R)
      = (\<lambda>m. cell_at m 0) ` set (map (\<lambda>r. l @ tl r) (filter (\<lambda>r. cell_at r 0 = cell_at l 0) R))
        \<union> (\<lambda>m. cell_at m 0) ` set (equi_join L R)"
    by (simp only: equi_join_Cons set_append image_Un)
  ultimately have "(\<lambda>m. cell_at m 0) ` set (equi_join (l # L) R)
      = ({cell_at l 0} \<inter> (\<lambda>r. cell_at r 0) ` set R)
        \<union> ((\<lambda>l. cell_at l 0) ` set L \<inter> (\<lambda>r. cell_at r 0) ` set R)"
    by simp
  also have "\<dots> = (\<lambda>l. cell_at l 0) ` set (l # L) \<inter> (\<lambda>r. cell_at r 0) ` set R"
    by auto
  finally show ?case .
qed

lemma matches_shape:
  assumes "main_compare pd src1 src2 = Inr c"
  shows "columns (matches c) = ''normalized_key'' # renamed (additional_columns src2) ''_dataset2''
            @ renamed (additional_columns src1) ''_dataset1''"
    and "rows (matches c) = equi_join (rows (merge_data2 c)) (rows (merge_data1 c))"
proof -
  from assms have m: "pd_merge (merge_data2 c) (merge_data1 c) ''normalized_key'' = Inr (matches c)"
    by (rule main_compare_Inr)
  note sh = pd_merge_shape [OF projections_shape(2) [OF assms] projections_shape(1) [OF assms]]
  from m sh have eq: "matches c =
      \<lparr>columns = ''normalized_key'' # renamed (additional_columns src2) ''_dataset2''
                    @ renamed (additional_columns src1) ''_dataset1'',
       rows = concat (map (\<lambda>l. map (\<lambda>r. l @ tl r)
                                      (filter (\<lambda>r. cell_at r 0 = cell_at l 0) (rows (merge_data1 c))))
                            (rows (merge_data2 c)))\<rparr>"
    by simp
  show "columns (matches c) = ''normalized_key'' # renamed (additional_columns src2) ''_dataset2''
            @ renamed (additional_columns src1) ''_dataset1''"
    by (subst eq) simp
  show "rows (matches c) = equi_join (rows (merge_data2 c)) (rows (merge_data1 c))"
    by (subst eq) (simp add: equi_join_concat)
qed

lemma non_matches_shape:
  assumes "main_compare pd src1 src2 = Inr c"
  shows "columns (non_matches c) = ''normalized_key'' # renamed (additional_columns src2) ''_dataset2''
            @ renamed (additional_columns src1) ''_dataset1''"
    and "rows (non_matches c) =
      map (\<lambda>r. map (\<lambda>n. case get_loc (columns (merge_data2 c)) n of
                           Some i \<Rightarrow> cell_at r i | None \<Rightarrow> CNone) (columns (merge_data2 c))
                @ replicate (length (additional_columns src1)) (CFloat NaN))
          (filter (\<lambda>r. cell_at r 0 \<notin> (\<lambda>r. cell_at r 0) ` set (rows (merge_data1 c)))
                  (rows (merge_data2 c)))"
proof -
  from assms obtain nm0 where
    nm0: "not_isin (merge_data2 c) (merge_data1 c) = Inr nm0"
    and nms: "getitem_columns (add_nan_columns nm0 (renamed (additional_columns src1) ''_dataset1''))
        (''normalized_key'' # renamed (additional_columns src2) ''_dataset2''
           @ renamed (additional_columns src1) ''_dataset1'') = Inr (non_matches c)"
    by (rule main_compare_Inr)
  note p = projections_shape [OF assms]
  from non_matches_step [OF p(2) p(1) p(4)] nm0 nms
  have eq: "non_matches c =
      \<lparr>columns = ''normalized_key'' # renamed (additional_columns src2) ''_dataset2''
                    @ renamed (additional_columns src1) ''_dataset1'',
       rows = map (\<lambda>r. map (\<lambda>n. case get_loc (columns (merge_data2 c)) n of
                                   Some i \<Rightarrow> cell_at r i | None \<Rightarrow> CNone) (columns (merge_data2 c))
                          @ replicate (length (additional_columns src1)) (CFloat NaN))
                  (filter (\<lambda>r. cell_at r 0 \<notin> (\<lambda>r. cell_at r 0) ` set (rows (merge_data1 c)))
                          (rows (merge_data2 c)))\<rparr>"
    by auto
  show "columns (non_matches c) = ''normalized_key'' # renamed (additional_columns src2) ''_dataset2''
            @ renamed (additional_columns src1) ''_dataset1''"
    by (subst eq) simp
  show "rows (non_matches c) =
      map (\<lambda>r. map (\<lambda>n. case get_loc (columns (merge_data2 c)) n of
                           Some i \<Rightarrow> cell_at r i | None \<Rightarrow> CNone) (columns (merge_data2 c))
                @ replicate (length (additional_columns src1)) (CFloat NaN))
          (filter (\<lambda>r. cell_at r 0 \<notin> (\<lambda>r. cell_at r 0) ` set (rows (merge_data1 c)))
                  (rows (merge_data2 c)))"
    by (subst eq) simp
qed

lemma get_unique_records_key_first:
  assumes "columns df = ''normalized_key'' # cs"
  shows "get_unique_records df ''normalized_key''
    = Inr (df\<lparr>rows := drop_duplicates (\<lambda>r. cell_at r 0) [] (rows df)\<rparr>)"
  by (simp add: get_unique_records_def assms)

lemma length_maybe_convert_objects: "length (maybe_convert_objects pd vals) = length vals"
  by (simp add: maybe_convert_objects_def)

lemma length_rows_apply: "length (rows (apply_remove_accents pd df)) = length (rows df)"
  by (simp add: apply_remove_accents_def Let_def)

lemma len_stored: "len (astype_str pd (apply_remove_accents pd df)) = len df"
  by (simp add: len_def astype_str_def length_rows_apply)

lemma drop_duplicates_subset: "set (drop_duplicates key seen rs) \<subseteq> set rs"
  by (induction rs arbitrary: seen) auto

lemma unique_non_matches_shape:
  assumes "main_compare pd src1 src2 = Inr c"
  shows "get_unique_records (non_matches c) ''normalized_key''
      = Inr ((non_matches c)\<lparr>rows := drop_duplicates (\<lambda>r. cell_at r 0) [] (rows (non_matches c))\<rparr>)"
  by (rule get_unique_records_key_first) (rule non_matches_shape(1) [OF assms])

lemma unique_matches_shape:
  assumes "main_compare pd src1 src2 = Inr c"
  shows "get_unique_records (matches c) ''normalized_key''
      = Inr ((matches c)\<lparr>rows := drop_duplicates (\<lambda>r. cell_at r 0) [] (rows (matches c))\<rparr>)"
  by (rule get_unique_records_key_first) (rule matches_shape(1) [OF assms])

lemma stored_shape:
  assumes "main_compare pd src1 src2 = Inr c"
  shows "stored_unique_matches c = astype_str pd (apply_remove_accents pd
            ((matches c)\<lparr>rows := drop_duplicates (\<lambda>r. cell_at r 0) [] (rows (matches c))\<rparr>))"
    and "stored_unique_non_matches c = astype_str pd (apply_remove_accents pd
            ((non_matches c)\<lparr>rows := drop_duplicates (\<lambda>r. cell_at r 0) [] (rows (non_matches c))\<rparr>))"
    and "unique_matches (stored_statistics c)
          = int (length (drop_duplicates (\<lambda>r. cell_at r 0) [] (rows (matches c))))"
    and "unique_non_matches (stored_statistics c)
          = int (length (drop_duplicates (\<lambda>r. cell_at r 0) [] (rows (non_matches c))))"
proof -
  from assms obtain um unm unique2 where u:
    "get_unique_records (matches c) ''normalized_key'' = Inr um"
    "get_unique_records (non_matches c) ''normalized_key'' = Inr unm"
    and st: "stored_unique_matches c = astype_str pd (apply_remove_accents pd um)"
    "stored_unique_non_matches c = astype_str pd (apply_remove_accents pd unm)"
    and stat: "stored_statistics c =
       \<lparr>total_records = len (data src2),
        total_unique = len unique2,
        unique_matches = len (astype_str pd (apply_remove_accents pd um)),
        unique_non_matches = len (astype_str pd (apply_remove_accents pd unm)),
        duplicate_matches = len (matches c) - len (astype_str pd (apply_remove_accents pd um)),
        duplicate_non_matches = len (non_matches c) - len (astype_str pd (apply_remove_accents pd unm))\<rparr>"
    by (rule main_compare_Inr)
  from u(1) have um: "um = (matches c)\<lparr>rows := drop_duplicates (\<lambda>r. cell_at r 0) [] (rows (matches c))\<rparr>"
    by (simp add: unique_matches_shape [OF assms])
  from u(2) have unm: "unm = (non_matches c)\<lparr>rows := drop_duplicates (\<lambda>r. cell_at r 0) [] (rows (non_matches c))\<rparr>"
    by (simp add: unique_non_matches_shape [OF assms])
  show "stored_unique_matches c = astype_str pd (apply_remove_accents pd
            ((matches c)\<lparr>rows := drop_duplicates (\<lambda>r. cell_at r 0) [] (rows (matches c))\<rparr>))"
    using st(1) um by simp
  show "stored_unique_non_matches c = astype_str pd (apply_remove_accents pd
            ((non_matches c)\<lparr>rows := drop_duplicates (\<lambda>r. cell_at r 0) [] (rows (non_matches c))\<rparr>))"
    using st(2) unm by simp
  show "unique_matches (stored_statistics c)
          = int (length (drop_duplicates (\<lambda>r. cell_at r 0) [] (rows (matches c))))"
    by (simp add: stat len_stored) (simp add: um len_def)
  show "unique_non_matches (stored_statistics c)
          = int (length (drop_duplicates (\<lambda>r. cell_at r 0) [] (rows (non_matches c))))"
    by (simp add: stat len_stored) (simp add: unm len_def)
qed

lemma columns_stored: "columns (astype_str pd (apply_remove_accents pd df)) = columns df"
  by (simp add: astype_str_def apply_remove_accents_def Let_def)

subsection \<open>The comparison succeeds when the chosen columns exist\<close>

lemma columns_setitem:
  "set (columns (setitem_column df name vs)) = insert name (set (columns df))"
  by (auto simp: setitem_column_def dest: get_loc_Some_mem split: option.splits)

lemma normalized_data_succeeds:
  assumes "selected_column src \<in> set (columns (data src))"
  shows "\<exists>nd. normalized_data src = Inr nd
    \<and> set (columns nd) = insert ''normalized_key'' (set (columns (data src)))"
proof -
  from assms obtain k where "get_loc (columns (data src)) (selected_column src) = Some k"
    using get_loc_None [of "columns (data src)" "selected_column src"] by auto
  then show ?thesis
    by (simp add: normalized_data_def normalize_column_def getitem_column_def Let_def columns_setitem)
qed

lemma merge_data_succeeds:
  assumes "''normalized_key'' \<in> set (columns nd)" and "set cols \<subseteq> set (columns nd)"
  shows "\<exists>md. merge_data nd cols tag = Inr md"
proof -
  have "list_all (\<lambda>n. get_loc (columns nd) n \<noteq> None) (''normalized_key'' # cols)"
    using assms by (auto simp: list_all_iff get_loc_None)
  then show ?thesis
    by (simp add: merge_data_def getitem_columns_def)
qed

lemma get_unique_records_succeeds:
  "name \<in> set (columns df) \<Longrightarrow> \<exists>u. get_unique_records df name = Inr u"
  using get_loc_None [of "columns df" name]
  by (auto simp: get_unique_records_def split: option.splits)

lemma main_compare_succeeds:
  assumes "selected_column src1 \<in> set (columns (data src1))"
    and "set (additional_columns src1) \<subseteq> set (columns (data src1))"
    and "selected_column src2 \<in> set (columns (data src2))"
    and "set (additional_columns src2) \<subseteq> set (columns (data src2))"
  shows "\<exists>c. main_compare pd src1 src2 = Inr c"
proof -
  from normalized_data_succeeds [OF assms(1)] obtain nd1 where
    nd1: "normalized_data src1 = Inr nd1"
      "set (columns nd1) = insert ''normalized_key'' (set (columns (data src1)))" by blast
  from normalized_data_succeeds [OF assms(3)] obtain nd2 where
    nd2: "normalized_data src2 = Inr nd2"
      "set (columns nd2) = insert ''normalized_key'' (set (columns (data src2)))" by blast
  from merge_data_succeeds [of nd1 "additional_columns src1" "''_dataset1''"] nd1(2) assms(2)
  obtain md1 where md1: "merge_data nd1 (additional_columns src1) ''_dataset1'' = Inr md1" by auto
  from merge_data_succeeds [of nd2 "additional_columns src2" "''_dataset2''"] nd2(2) assms(4)
  obtain md2 where md2: "merge_data nd2 (additional_columns src2) ''_dataset2'' = Inr md2" by auto
  note c1 = merge_data_shape(1) [OF md1]
  note c2 = merge_data_shape(1) [OF md2]
  have w: "\<forall>r \<in> set (rows md2). length r = Suc (length (additional_columns src2))"
    using merge_data_width [OF md2] by blast
  from pd_merge_shape [OF c2 c1] obtain ms where
    ms: "pd_merge md2 md1 ''normalized_key'' = Inr ms"
    and cms: "columns ms = ''normalized_key'' # renamed (additional_columns src2) ''_dataset2''
                @ renamed (additional_columns src1) ''_dataset1''"
    by simp
  from non_matches_step [OF c2 c1 w] obtain nm0 nms where
    nm0: "not_isin md2 md1 = Inr nm0"
    and nms: "getitem_columns (add_nan_columns nm0 (renamed (additional_columns src1) ''_dataset1''))
        (''normalized_key'' # renamed (additional_columns src2) ''_dataset2''
           @ renamed (additional_columns src1) ''_dataset1'') = Inr nms"
    and cnms: "columns nms = ''normalized_key'' # renamed (additional_columns src2) ''_dataset2''
                @ renamed (additional_columns src1) ''_dataset1''"
    by auto
  from get_unique_records_succeeds [of "''normalized_key''" ms] cms
  obtain um where um: "get_unique_records ms ''normalized_key'' = Inr um" by auto
  from get_unique_records_succeeds [of "''normalized_key''" nms] cnms
  obtain unm where unm: "get_unique_records nms ''normalized_key'' = Inr unm" by auto
  from get_unique_records_succeeds [OF assms(3)]
  obtain unique2 where u2: "get_unique_records (data src2) (selected_column src2) = Inr unique2"
    by auto
  show ?thesis
    unfolding main_compare_def and_then_def
    by (simp add: nd1(1) nd2(1) md1 md2 ms nm0 nms um unm u2 Let_def)
qed

section \<open>Properties of remove_accents\<close>

lemma remove_accents_text:
  "remove_accents (CStr s) =
    CStr (decode_ASCII (filter (\<lambda>n. n < 128) (concat (map (\<lambda>ch. decompose_NFKD (of_char ch)) s))))"
  by (simp add: remove_accents_def encode_ASCII_ignore_def)

lemma decode_ASCII_ascii: "ch \<in> set (decode_ASCII (filter (\<lambda>n. n < 128) xs)) \<Longrightarrow> (of_char ch :: nat) < 128"
  by (auto simp: decode_ASCII_def)

lemma canonical_base_ascii:
  "list_all (\<lambda>(cp, d). filter (\<lambda>n. n < 128) d = [hd d]) canonical_decompositions"
  by (simp add: canonical_decompositions_def)

lemma decompose_NFKD_canonical:
  "map_of canonical_decompositions cp = Some d \<Longrightarrow> decompose_NFKD cp = d"
  by (simp add: decompose_NFKD_def map_of_append)

lemma remove_accents_base_letter:
  assumes "map_of canonical_decompositions (of_char ch) = Some d"
  shows "remove_accents (CStr [ch]) = CStr [char_of (hd d)]"
proof -
  from assms have "(of_char ch, d) \<in> set canonical_decompositions" by (rule map_of_SomeD)
  with canonical_base_ascii have "filter (\<lambda>n. n < 128) d = [hd d]"
    by (auto simp: list_all_iff)
  then show ?thesis
    by (simp add: remove_accents_text decompose_NFKD_canonical [OF assms] decode_ASCII_def)
qed

lemma decompose_NFKD_ascii: "n < 128 \<Longrightarrow> decompose_NFKD n = [n]"
  by (simp add: decompose_NFKD_def canonical_decompositions_def compatibility_decompositions_def)

lemma remove_accents_ascii:
  assumes "\<forall>c \<in> set s. (of_char c :: nat) < 128"
  shows "remove_accents (CStr s) = CStr s"
proof -
  have "concat (map (\<lambda>c. decompose_NFKD (of_char c)) s) = map of_char s"
    using assms by (induction s) (simp_all add: decompose_NFKD_ascii)
  moreover have "filter (\<lambda>c. c < 128) (map of_char s) = (map of_char s :: nat list)"
    using assms by (induction s) simp_all
  ultimately show ?thesis
    by (simp add: remove_accents_def encode_ASCII_ignore_def decode_ASCII_def comp_def)
qed

lemma remove_accents_not_text [simp]:
  "remove_accents CNone = CNone" "remove_accents (CInt i) = CInt i" "remove_accents (CFloat f) = CFloat f"
  by (simp_all add: remove_accents_def)

lemma nfkd_Jose:
  "unicodedata_normalize_NFKD (CStr [CHR ''J'', CHR ''o'', CHR ''s'', CHR 0xE9])
    = Inr [0x4A, 0x6F, 0x73, 0x65, 0x301]"
  by (simp add: decompose_NFKD_def canonical_decompositions_def compatibility_decompositions_def)

lemma decode_Jose: "decode_ASCII [0x4A, 0x6F, 0x73, 0x65] = ''Jose''"
  unfolding decode_ASCII_def by code_simp

lemma remove_accents_Jose:
  "remove_accents (CStr [CHR ''J'', CHR ''o'', CHR ''s'', CHR 0xE9]) = CStr ''Jose''"
  unfolding remove_accents_def nfkd_Jose by (simp add: encode_ASCII_ignore_def decode_Jose)

section \<open>The cells of the stored frames\<close>

lemma cell_at_nth: "j < length r \<Longrightarrow> cell_at r j = r ! j"
  by (simp add: cell_at_def)

lemma cell_at_replicate: "i < n \<Longrightarrow> cell_at (replicate n x) i = x"
  by (simp add: cell_at_def)

lemma apply_row:
  assumes "i < length (rows df)"
  shows "rows (apply_remove_accents pd df) ! i =
    map (\<lambda>j. cell_at (maybe_convert_objects pd (map (\<lambda>r. remove_accents (cell_at r j)) (rows df))) i)
      [0..<length (columns df)]"
  using assms by (simp add: apply_remove_accents_def Let_def comp_def)

lemma apply_cell:
  assumes "i < length (rows df)" and "j < length (columns df)"
  shows "cell_at (rows (apply_remove_accents pd df) ! i) j =
    maybe_convert_objects pd (map (\<lambda>r. remove_accents (cell_at r j)) (rows df)) ! i"
  using assms by (simp add: apply_row cell_at_nth length_maybe_convert_objects)

lemma seen_object_text: "CStr s \<in> set vals \<Longrightarrow> seen_object a b c vals"
proof (induction vals arbitrary: a b c)
  case Nil
  then show ?case by simp
next
  case (Cons x vals)
  then show ?case by (cases x) auto
qed

lemma maybe_convert_text: "CStr s \<in> set vals \<Longrightarrow> maybe_convert_objects pd vals = vals"
  by (simp add: maybe_convert_objects_def converts_to_float64_def seen_object_text)

lemma apply_text_cell:
  assumes i: "i < length (rows df)" and j: "j < length (columns df)"
    and cell: "cell_at (rows df ! i) j = CStr s"
  shows "cell_at (rows (apply_remove_accents pd df) ! i) j = remove_accents (CStr s)"
proof -
  let ?col = "map (\<lambda>r. remove_accents (cell_at r j)) (rows df)"
  have at: "?col ! i = remove_accents (CStr s)" using i cell by simp
  obtain t where t: "remove_accents (CStr s) = CStr t" by (simp add: remove_accents_text)
  have "?col ! i \<in> set ?col" using i by (intro nth_mem) simp
  then have "CStr t \<in> set ?col" by (simp only: at t)
  then have "maybe_convert_objects pd ?col = ?col" by (rule maybe_convert_text)
  with apply_cell [OF i j, of pd] at show ?thesis by simp
qed

lemma astype_cell:
  assumes "i < length (rows df)" and "j < length (rows df ! i)"
  shows "cell_at (rows (astype_str pd df) ! i) j =
    (if astype_str_keeps_missing pd \<and> isna (cell_at (rows df ! i) j) then CFloat NaN
     else CStr (str (cell_at (rows df ! i) j)))"
  using assms by (simp add: astype_str_def cell_at_def)

lemma stored_text_cell:
  assumes i: "i < length (rows df)" and j: "j < length (columns df)"
    and cell: "cell_at (rows df ! i) j = CStr s"
  shows "cell_at (rows (astype_str pd (apply_remove_accents pd df)) ! i) j = remove_accents (CStr s)"
proof -
  obtain t where t: "remove_accents (CStr s) = CStr t" by (simp add: remove_accents_text)
  have i': "i < length (rows (apply_remove_accents pd df))" using i by (simp add: length_rows_apply)
  have j': "j < length (rows (apply_remove_accents pd df) ! i)" using i j by (simp add: apply_row)
  show ?thesis
    unfolding astype_cell [OF i' j'] apply_text_cell [OF i j cell] by (simp add: t)
qed

lemma stored_cell_kinds:
  assumes "r \<in> set (rows (astype_str pd df))" and "x \<in> set r"
  shows "(\<exists>s. x = CStr s) \<or> (astype_str_keeps_missing pd \<and> x = CFloat NaN)"
  using assms by (auto simp: astype_str_def)

lemma maybe_convert_nan:
  "maybe_convert_objects pd (replicate n (CFloat NaN)) = replicate n (CFloat NaN)"
  by (simp add: maybe_convert_objects_def)

lemma apply_nan_tail:
  assumes tail: "\<forall>r \<in> set (rows df). length r = length (columns df)
                    \<and> drop k r = replicate (length (columns df) - k) (CFloat NaN)"
    and i: "i < length (rows df)"
  shows "drop k (rows (apply_remove_accents pd df) ! i)
    = replicate (length (columns df) - k) (CFloat NaN)"
proof -
  have col: "map (\<lambda>r. remove_accents (cell_at r j)) (rows df)
      = replicate (length (rows df)) (CFloat NaN)"
    if j: "k \<le> j" "j < length (columns df)" for j
  proof -
    have "remove_accents (cell_at r j) = CFloat NaN" if r: "r \<in> set (rows df)" for r
    proof -
      from tail r have len: "length r = length (columns df)"
        and d: "drop k r = replicate (length (columns df) - k) (CFloat NaN)" by auto
      have "r ! j = drop k r ! (j - k)" using j len by simp
      also have "\<dots> = CFloat NaN" using j by (simp add: d)
      finally show ?thesis using j len by (simp add: cell_at_def remove_accents_def)
    qed
    then show ?thesis by (simp add: map_replicate_const [symmetric] cong: map_cong)
  qed
  have "drop k (rows (apply_remove_accents pd df) ! i)
      = map (\<lambda>j. cell_at (maybe_convert_objects pd (map (\<lambda>r. remove_accents (cell_at r j)) (rows df))) i)
          [k..<length (columns df)]"
    by (simp add: apply_row [OF i] drop_map)
  also have "\<dots> = map (\<lambda>j. CFloat NaN) [k..<length (columns df)]"
    by (rule map_cong [OF refl]) (simp add: col maybe_convert_nan cell_at_replicate i)
  finally show ?thesis by (simp add: map_replicate_const)
qed

lemma decode_Strae: "decode_ASCII [0x53, 0x74, 0x72, 0x61, 0x65] = ''Strae''"
  unfolding decode_ASCII_def by code_simp

section \<open>The examples evaluated\<close>

lemma str_nat_digit: "n < 10 \<Longrightarrow> str_nat n = [digit_char n]"
  by (simp add: str_nat.simps [of n])

lemmas frame_eval =
  and_then_def no_trim_def
  normalized_data_def normalize_column_def getitem_column_def setitem_column_def
  getitem_columns_def merge_data_def renamed_def pd_merge_def not_isin_def add_nan_columns_def
  get_unique_records_def apply_remove_accents_def maybe_convert_objects_def
  converts_to_float64_def astype_str_def len_def cell_at_def remove_nth_def
  normalize_value_def isdigit_def ascii_digit_def remove_accents_ascii upt_rec Let_def

lemmas compare_eval = main_compare_def keys_only_def frame_eval

lemmas example_eval =
  main_compare_def example_source1_def example_source2_def frame_eval
  pandas2_def pandas3_def float64_exact_def str_int_def str_nat_digit digit_char_def
  remove_accents_Jose

lemma example_compare: "main_compare pandas2 example_source1 example_source2 = Inr example_comparison"
  unfolding example_comparison_def by (simp add: example_eval)

lemma example_compare3:
  "map_sum id (\<lambda>c. (rows (stored_unique_matches c), rows (stored_unique_non_matches c)))
     (main_compare pandas3 example_source1 example_source2)
   = Inr ([[CStr ''1'', CStr ''x'', CStr ''5.0'', CStr ''a''],
           [CStr ''2'', CStr ''y'', CFloat NaN, CStr ''b'']],
          [[CStr ''3'', CStr ''Jose'', CStr ''2.5'', CFloat NaN]])"
  by (simp add: example_eval)

lemma textless_apply:
  "rows (apply_remove_accents pandas2 textless_example) = [[CFloat (Whole 5 ''5.0'')], [CFloat NaN]]"
  by (simp add: textless_example_def example_eval)

section \<open>Properties of the comparison\<close>

text \<open>
  Claim C3, as the program has it. With keys 001, 002 in the first source and 1, 2, 3 in
  the second, no trimming and no additional columns, the comparison finds no unique match
  and three unique non-matches (1, 2 and 3), without duplicates: normalisation keeps the
  leading zeros, so 001 and 1 are different keys. The counts of the scenario, two unique
  matches and one unique non-match (3), are those of the first source with keys 1, 2.
\<close>

theorem scenario_leading_zeros:
  "map_sum id stored_statistics (main_compare pd (keys_only [''001'', ''002'']) (keys_only [''1'', ''2'', ''3'']))
     = Inr \<lparr>total_records = 3, total_unique = 3, unique_matches = 0, unique_non_matches = 3,
            duplicate_matches = 0, duplicate_non_matches = 0\<rparr>
   \<and> map_sum id (\<lambda>c. rows (stored_unique_non_matches c))
        (main_compare pd (keys_only [''001'', ''002'']) (keys_only [''1'', ''2'', ''3'']))
     = Inr [[CStr ''1''], [CStr ''2''], [CStr ''3'']]
   \<and> map_sum id stored_statistics (main_compare pd (keys_only [''1'', ''2'']) (keys_only [''1'', ''2'', ''3'']))
     = Inr \<lparr>total_records = 3, total_unique = 3, unique_matches = 2, unique_non_matches = 1,
            duplicate_matches = 0, duplicate_non_matches = 0\<rparr>
   \<and> map_sum id (\<lambda>c. rows (stored_unique_non_matches c))
        (main_compare pd (keys_only [''1'', ''2'']) (keys_only [''1'', ''2'', ''3'']))
     = Inr [[CStr ''3'']]"
  by (simp add: compare_eval)

text \<open>
  Claim C3 as stated fails: the number of unique matches of the scenario is not 2, under
  either pandas.
\<close>

theorem scenario_leading_zeros_counterexample:
  "map_sum id (\<lambda>c. unique_matches (stored_statistics c))
     (main_compare pandas2 (keys_only [''001'', ''002'']) (keys_only [''1'', ''2'', ''3''])) \<noteq> Inr 2
   \<and> map_sum id (\<lambda>c. unique_matches (stored_statistics c))
     (main_compare pandas3 (keys_only [''001'', ''002'']) (keys_only [''1'', ''2'', ''3''])) \<noteq> Inr 2"
  by (simp add: compare_eval)




text \<open>
  Claim C6. In every comparison the matches are the inner equi-join on the key of the two
  full projections, the projection of source 2 on the left and that of source 1 on the
  right: the projections have one row for every row of their source and the key in their
  first column, the columns of the join are the key, the renamed columns of source 2 and
  those of source 1, and for every key the join has as many rows as the product of the
  numbers of rows with that key on the two sides.
\<close>

theorem matches_is_equi_join:
  assumes "main_compare pd src1 src2 = Inr c"
  shows "columns (merge_data2 c) = ''normalized_key'' # renamed (additional_columns src2) ''_dataset2''
    \<and> columns (merge_data1 c) = ''normalized_key'' # renamed (additional_columns src1) ''_dataset1''
    \<and> length (rows (merge_data2 c)) = length (rows (data src2))
    \<and> length (rows (merge_data1 c)) = length (rows (data src1))
    \<and> columns (matches c) = ''normalized_key'' # renamed (additional_columns src2) ''_dataset2''
          @ renamed (additional_columns src1) ''_dataset1''
    \<and> rows (matches c) = equi_join (rows (merge_data2 c)) (rows (merge_data1 c))
    \<and> (\<forall>k. length (filter (\<lambda>m. cell_at m 0 = k) (rows (matches c)))
            = length (filter (\<lambda>l. cell_at l 0 = k) (rows (merge_data2 c)))
              * length (filter (\<lambda>r. cell_at r 0 = k) (rows (merge_data1 c))))"
proof -
  note p = projections_shape [OF assms]
  note m = matches_shape [OF assms]
  have ne: "\<forall>l \<in> set (rows (merge_data2 c)). l \<noteq> []"
    using p(4) by (rule nonempty_rows)
  have "length (filter (\<lambda>m. cell_at m 0 = k) (rows (matches c)))
            = length (filter (\<lambda>l. cell_at l 0 = k) (rows (merge_data2 c)))
              * length (filter (\<lambda>r. cell_at r 0 = k) (rows (merge_data1 c)))" for k
    unfolding m(2) by (rule equi_join_count [OF ne])
  with p m show ?thesis by simp
qed

theorem matches_is_equi_join_witness:
  "main_compare pandas2 example_source1 example_source2 = Inr example_comparison
   \<and> rows (matches example_comparison)
       = equi_join (rows (merge_data2 example_comparison)) (rows (merge_data1 example_comparison))
   \<and> rows (matches example_comparison)
       = [[CStr ''1'', CStr ''x'', CInt 5, CStr ''a''],
          [CStr ''2'', CStr ''y'', CNone, CStr ''b''],
          [CStr ''2'', CStr ''y'', CNone, CStr ''c''],
          [CStr ''1'', CStr ''w'', CInt 5, CStr ''a'']]"
  using matches_is_equi_join [OF example_compare]
  by (simp add: example_compare) (simp add: example_comparison_def)

text \<open>
  Claim C7. In every comparison whose additional columns of source 2 are distinct (the
  column selector of the page returns no label twice), the non-matches are the rows of the
  full projection of source 2 whose key does not occur in the full projection of source 1,
  each followed by one \<^verbatim>\<open>nan\<close> for every additional column of source 1, under the
  columns key, renamed columns of source 2, renamed columns of source 1.
\<close>

theorem non_matches_rows_and_columns:
  assumes "main_compare pd src1 src2 = Inr c"
    and "distinct (additional_columns src2)"
  shows "columns (merge_data2 c) = ''normalized_key'' # renamed (additional_columns src2) ''_dataset2''
    \<and> columns (merge_data1 c) = ''normalized_key'' # renamed (additional_columns src1) ''_dataset1''
    \<and> columns (non_matches c) = ''normalized_key'' # renamed (additional_columns src2) ''_dataset2''
          @ renamed (additional_columns src1) ''_dataset1''
    \<and> rows (non_matches c) =
        map (\<lambda>r. r @ replicate (length (additional_columns src1)) (CFloat NaN))
          (filter (\<lambda>r. cell_at r 0 \<notin> (\<lambda>r. cell_at r 0) ` set (rows (merge_data1 c)))
                  (rows (merge_data2 c)))"
proof -
  note p = projections_shape [OF assms(1)]
  note n = non_matches_shape [OF assms(1)]
  have d: "distinct (columns (merge_data2 c))"
    using assms(2) key_not_renamed2 [of "additional_columns src2"]
    by (simp add: p(2) distinct_renamed)
  have "map (\<lambda>n. case get_loc (columns (merge_data2 c)) n of Some i \<Rightarrow> cell_at r i | None \<Rightarrow> CNone)
          (columns (merge_data2 c)) = r" if "r \<in> set (rows (merge_data2 c))" for r
  proof (rule map_lookup_id [OF d])
    show "length r = length (columns (merge_data2 c))"
      using that p(4) by (simp add: p(2) length_renamed)
  qed
  then have "rows (non_matches c) =
        map (\<lambda>r. r @ replicate (length (additional_columns src1)) (CFloat NaN))
          (filter (\<lambda>r. cell_at r 0 \<notin> (\<lambda>r. cell_at r 0) ` set (rows (merge_data1 c)))
                  (rows (merge_data2 c)))"
    unfolding n(2) by (intro map_cong refl) simp
  with p n show ?thesis by simp
qed

theorem non_matches_rows_and_columns_witness:
  "main_compare pandas2 example_source1 example_source2 = Inr example_comparison
   \<and> distinct (additional_columns example_source2)
   \<and> rows (non_matches example_comparison) =
        map (\<lambda>r. r @ replicate (length (additional_columns example_source1)) (CFloat NaN))
          (filter (\<lambda>r. cell_at r 0 \<notin> (\<lambda>r. cell_at r 0) ` set (rows (merge_data1 example_comparison)))
                  (rows (merge_data2 example_comparison)))
   \<and> rows (non_matches example_comparison)
       = [[CStr ''3'', CStr [CHR ''J'', CHR ''o'', CHR ''s'', CHR 0xE9], CFloat (Fractional ''2.5''),
           CFloat NaN]]"
proof -
  have d: "distinct (additional_columns example_source2)"
    by (simp add: example_source2_def)
  show ?thesis
    using non_matches_rows_and_columns [OF example_compare d] d
    by (simp add: example_compare) (simp add: example_comparison_def)
qed

text \<open>
  Claim C8. The statistics of every comparison satisfy the six equations: the total is
  the row count of the second frame, the unique total that of the second frame
  deduplicated on its key column, the unique matches and unique non-matches are the row
  counts of the deduplicated matches and non-matches (which the stored frames keep), and
  the two duplicate counts are the row counts of matches and non-matches minus these.
\<close>

theorem statistics_equations:
  assumes "main_compare pd src1 src2 = Inr c"
  shows "\<exists>unique2 um unm.
      get_unique_records (data src2) (selected_column src2) = Inr unique2
    \<and> get_unique_records (matches c) ''normalized_key'' = Inr um
    \<and> get_unique_records (non_matches c) ''normalized_key'' = Inr unm
    \<and> len (stored_unique_matches c) = len um
    \<and> len (stored_unique_non_matches c) = len unm
    \<and> total_records (stored_statistics c) = len (data src2)
    \<and> total_unique (stored_statistics c) = len unique2
    \<and> unique_matches (stored_statistics c) = len um
    \<and> unique_non_matches (stored_statistics c) = len unm
    \<and> duplicate_matches (stored_statistics c) = len (matches c) - len um
    \<and> duplicate_non_matches (stored_statistics c) = len (non_matches c) - len unm"
proof -
  from assms obtain um unm unique2 where
    "get_unique_records (matches c) ''normalized_key'' = Inr um"
    "get_unique_records (non_matches c) ''normalized_key'' = Inr unm"
    "get_unique_records (data src2) (selected_column src2) = Inr unique2"
    "stored_unique_matches c = astype_str pd (apply_remove_accents pd um)"
    "stored_unique_non_matches c = astype_str pd (apply_remove_accents pd unm)"
    "stored_statistics c =
       \<lparr>total_records = len (data src2),
        total_unique = len unique2,
        unique_matches = len (astype_str pd (apply_remove_accents pd um)),
        unique_non_matches = len (astype_str pd (apply_remove_accents pd unm)),
        duplicate_matches = len (matches c) - len (astype_str pd (apply_remove_accents pd um)),
        duplicate_non_matches = len (non_matches c) - len (astype_str pd (apply_remove_accents pd unm))\<rparr>"
    by (rule main_compare_Inr)
  then show ?thesis by (simp add: len_stored)
qed

theorem statistics_equations_witness:
  "main_compare pandas2 example_source1 example_source2 = Inr example_comparison
   \<and> stored_statistics example_comparison =
       \<lparr>total_records = 4, total_unique = 3, unique_matches = 2, unique_non_matches = 1,
        duplicate_matches = 2, duplicate_non_matches = 0\<rparr>
   \<and> len (data example_source2) = 4
   \<and> len (matches example_comparison) = 4
   \<and> len (non_matches example_comparison) = 1"
  using statistics_equations [OF example_compare]
  by (simp add: example_compare) (simp add: example_comparison_def example_source2_def len_def)

text \<open>
  Claim C9, as the program has it. After the rendering every cell of the two stored frames
  is a text or a missing value that \<^verbatim>\<open>astype(str)\<close> has kept. Where \<^verbatim>\<open>astype(str)\<close>
  renders missing values (pandas before 3.0) every cell is a text and none is null. The
  cells of a row of the non-matches after the key and the columns of source 2, which are
  the columns of source 1, are all \<^verbatim>\<open>nan\<close>; in the stored unique non-matches they are
  the text \<^verbatim>\<open>nan\<close> where missing values are rendered, and still \<^verbatim>\<open>nan\<close> where they
  are kept (pandas from 3.0 on).
\<close>

theorem stored_cells_text_or_missing:
  assumes "main_compare pd src1 src2 = Inr c"
  shows "(\<forall>r \<in> set (rows (stored_unique_matches c)). \<forall>x \<in> set r.
            (\<exists>s. x = CStr s) \<or> (astype_str_keeps_missing pd \<and> x = CFloat NaN))
    \<and> (\<forall>r \<in> set (rows (stored_unique_non_matches c)). \<forall>x \<in> set r.
            (\<exists>s. x = CStr s) \<or> (astype_str_keeps_missing pd \<and> x = CFloat NaN))
    \<and> (\<not> astype_str_keeps_missing pd \<longrightarrow>
          (\<forall>r \<in> set (rows (stored_unique_matches c)). \<forall>x \<in> set r. \<exists>s. x = CStr s)
          \<and> (\<forall>r \<in> set (rows (stored_unique_non_matches c)). \<forall>x \<in> set r. \<exists>s. x = CStr s))
    \<and> columns (stored_unique_non_matches c)
        = ''normalized_key'' # renamed (additional_columns src2) ''_dataset2''
            @ renamed (additional_columns src1) ''_dataset1''
    \<and> (\<forall>r \<in> set (rows (non_matches c)).
          length r = Suc (length (additional_columns src2)) + length (additional_columns src1)
          \<and> drop (Suc (length (additional_columns src2))) r
              = replicate (length (additional_columns src1)) (CFloat NaN))
    \<and> (\<forall>r \<in> set (rows (stored_unique_non_matches c)).
          length r = Suc (length (additional_columns src2)) + length (additional_columns src1)
          \<and> drop (Suc (length (additional_columns src2))) r
              = replicate (length (additional_columns src1))
                  (if astype_str_keeps_missing pd then CFloat NaN else CStr ''nan''))"
proof -
  let ?k = "Suc (length (additional_columns src2))"
  let ?n1 = "length (additional_columns src1)"
  let ?unm = "(non_matches c)\<lparr>rows := drop_duplicates (\<lambda>r. cell_at r 0) [] (rows (non_matches c))\<rparr>"
  note p = projections_shape [OF assms]
  note n = non_matches_shape [OF assms]
  note st = stored_shape [OF assms]
  have kinds1: "\<forall>r \<in> set (rows (stored_unique_matches c)). \<forall>x \<in> set r.
            (\<exists>s. x = CStr s) \<or> (astype_str_keeps_missing pd \<and> x = CFloat NaN)"
    unfolding st(1) using stored_cell_kinds by blast
  have kinds2: "\<forall>r \<in> set (rows (stored_unique_non_matches c)). \<forall>x \<in> set r.
            (\<exists>s. x = CStr s) \<or> (astype_str_keeps_missing pd \<and> x = CFloat NaN)"
    unfolding st(2) using stored_cell_kinds by blast
  have cols: "columns (stored_unique_non_matches c)
        = ''normalized_key'' # renamed (additional_columns src2) ''_dataset2''
            @ renamed (additional_columns src1) ''_dataset1''"
    by (simp add: st(2) columns_stored n(1))
  have nan: "length r = ?k + ?n1 \<and> drop ?k r = replicate ?n1 (CFloat NaN)"
    if "r \<in> set (rows (non_matches c))" for r
    using that unfolding n(2) by (auto simp: p(2) length_renamed)
  have width: "length (columns ?unm) = ?k + ?n1"
    by (simp add: n(1) length_renamed)
  have tail: "\<forall>r \<in> set (rows ?unm). length r = length (columns ?unm)
                    \<and> drop ?k r = replicate (length (columns ?unm) - ?k) (CFloat NaN)"
  proof
    fix r assume "r \<in> set (rows ?unm)"
    then have "r \<in> set (rows (non_matches c))"
      using drop_duplicates_subset [of "\<lambda>r. cell_at r 0" "[]" "rows (non_matches c)"] by auto
    from nan [OF this] width
    show "length r = length (columns ?unm)
        \<and> drop ?k r = replicate (length (columns ?unm) - ?k) (CFloat NaN)"
      by simp
  qed
  have stored: "length r = ?k + ?n1
          \<and> drop ?k r = replicate ?n1 (if astype_str_keeps_missing pd then CFloat NaN else CStr ''nan'')"
    if "r \<in> set (rows (stored_unique_non_matches c))" for r
  proof -
    let ?g = "\<lambda>c. if astype_str_keeps_missing pd \<and> isna c then CFloat NaN else CStr (str c)"
    from that obtain r0 where r0: "r0 \<in> set (rows (apply_remove_accents pd ?unm))"
      and r: "r = map ?g r0"
      by (auto simp: st(2) astype_str_def)
    from r0 obtain i where i: "i < length (rows ?unm)"
      and ri: "r0 = rows (apply_remove_accents pd ?unm) ! i"
      by (auto simp: in_set_conv_nth length_rows_apply)
    have len: "length r0 = ?k + ?n1"
      unfolding ri apply_row [OF i] using width by simp
    have "drop ?k r0 = replicate (length (columns ?unm) - ?k) (CFloat NaN)"
      unfolding ri by (rule apply_nan_tail [OF tail i])
    then have "drop ?k r0 = replicate ?n1 (CFloat NaN)" using width by simp
    then have "drop ?k r = replicate ?n1 (?g (CFloat NaN))"
      unfolding r by (simp add: drop_map)
    with len show ?thesis by (simp add: r)
  qed
  from kinds1 kinds2 have "\<not> astype_str_keeps_missing pd \<longrightarrow>
          (\<forall>r \<in> set (rows (stored_unique_matches c)). \<forall>x \<in> set r. \<exists>s. x = CStr s)
          \<and> (\<forall>r \<in> set (rows (stored_unique_non_matches c)). \<forall>x \<in> set r. \<exists>s. x = CStr s)"
    by blast
  with kinds1 kinds2 cols nan stored show ?thesis by blast
qed

theorem stored_cells_text_or_missing_witness:
  "main_compare pandas2 example_source1 example_source2 = Inr example_comparison
   \<and> rows (stored_unique_non_matches example_comparison)
       = [[CStr ''3'', CStr ''Jose'', CStr ''2.5'', CStr ''nan'']]
   \<and> drop (Suc (length (additional_columns example_source2)))
        (hd (rows (stored_unique_non_matches example_comparison)))
       = replicate (length (additional_columns example_source1)) (CStr ''nan'')"
  using stored_cells_text_or_missing [OF example_compare]
  by (simp add: example_compare)
     (simp add: example_comparison_def example_source1_def example_source2_def)

text \<open>
  Claim C9 as stated fails where \<^verbatim>\<open>astype(str)\<close> keeps missing values (pandas from 3.0
  on): the stored unique non-matches of the example end in a cell that is null, not the
  text \<^verbatim>\<open>nan\<close>, and the stored unique matches hold a null cell as well.
\<close>

theorem astype_str_keeps_missing_counterexample:
  "map_sum id (\<lambda>c. (rows (stored_unique_matches c), rows (stored_unique_non_matches c)))
     (main_compare pandas3 example_source1 example_source2)
   = Inr ([[CStr ''1'', CStr ''x'', CStr ''5.0'', CStr ''a''],
           [CStr ''2'', CStr ''y'', CFloat NaN, CStr ''b'']],
          [[CStr ''3'', CStr ''Jose'', CStr ''2.5'', CFloat NaN]])
   \<and> isna (CFloat NaN) \<and> CFloat NaN \<noteq> CStr ''nan''"
  by (simp add: example_compare3)

text \<open>
  Claim C10. The keys of the matches are the keys of the second projection that occur in
  the first, the keys of the non-matches are those that do not; so every key of the second
  projection is in exactly one of the two, and the unique matches and unique non-matches
  add up to the number of distinct keys of the second projection.
\<close>

theorem keys_partition:
  assumes "main_compare pd src1 src2 = Inr c"
  shows "(\<lambda>r. cell_at r 0) ` set (rows (matches c))
        = (\<lambda>r. cell_at r 0) ` set (rows (merge_data2 c)) \<inter> (\<lambda>r. cell_at r 0) ` set (rows (merge_data1 c))
    \<and> (\<lambda>r. cell_at r 0) ` set (rows (non_matches c))
        = (\<lambda>r. cell_at r 0) ` set (rows (merge_data2 c)) - (\<lambda>r. cell_at r 0) ` set (rows (merge_data1 c))
    \<and> unique_matches (stored_statistics c)
        = int (card ((\<lambda>r. cell_at r 0) ` set (rows (merge_data2 c))
                      \<inter> (\<lambda>r. cell_at r 0) ` set (rows (merge_data1 c))))
    \<and> unique_non_matches (stored_statistics c)
        = int (card ((\<lambda>r. cell_at r 0) ` set (rows (merge_data2 c))
                      - (\<lambda>r. cell_at r 0) ` set (rows (merge_data1 c))))
    \<and> unique_matches (stored_statistics c) + unique_non_matches (stored_statistics c)
        = int (card ((\<lambda>r. cell_at r 0) ` set (rows (merge_data2 c))))"
proof -
  let ?key = "\<lambda>r. cell_at r 0"
  let ?K2 = "?key ` set (rows (merge_data2 c))"
  let ?K1 = "?key ` set (rows (merge_data1 c))"
  note p = projections_shape [OF assms]
  note m = matches_shape [OF assms]
  note n = non_matches_shape [OF assms]
  note st = stored_shape [OF assms]
  have km: "?key ` set (rows (matches c)) = ?K2 \<inter> ?K1"
    unfolding m(2) by (rule equi_join_keys) (rule nonempty_rows [OF p(4)])
  have first: "cell_at (map (\<lambda>n. case get_loc (columns (merge_data2 c)) n of
                           Some i \<Rightarrow> cell_at r i | None \<Rightarrow> CNone) (columns (merge_data2 c)) @ xs) 0
      = cell_at r 0" for r xs
    by (simp add: p(2) cell_at_def)
  have "?key ` set (rows (non_matches c)) = ?key ` {r \<in> set (rows (merge_data2 c)). ?key r \<notin> ?K1}"
    unfolding n(2) by (simp add: image_image first)
  also have "\<dots> = ?K2 - ?K1" by auto
  finally have kn: "?key ` set (rows (non_matches c)) = ?K2 - ?K1" .
  have um: "unique_matches (stored_statistics c) = int (card (?K2 \<inter> ?K1))"
    by (simp only: st(3) length_drop_duplicates km)
  have unm: "unique_non_matches (stored_statistics c) = int (card (?K2 - ?K1))"
    by (simp only: st(4) length_drop_duplicates kn)
  have "card (?K2 \<inter> ?K1) + card (?K2 - ?K1) = card ((?K2 \<inter> ?K1) \<union> (?K2 - ?K1))"
    by (rule card_Un_disjoint [symmetric]) auto
  also have "(?K2 \<inter> ?K1) \<union> (?K2 - ?K1) = ?K2" by auto
  finally have "int (card (?K2 \<inter> ?K1)) + int (card (?K2 - ?K1)) = int (card ?K2)"
    by simp
  with km kn um unm show ?thesis by simp
qed

theorem keys_partition_witness:
  "main_compare pandas2 example_source1 example_source2 = Inr example_comparison
   \<and> (\<lambda>r. cell_at r 0) ` set (rows (matches example_comparison)) = {CStr ''1'', CStr ''2''}
   \<and> (\<lambda>r. cell_at r 0) ` set (rows (non_matches example_comparison)) = {CStr ''3''}
   \<and> unique_matches (stored_statistics example_comparison)
      + unique_non_matches (stored_statistics example_comparison) = 3"
  using keys_partition [OF example_compare]
  by (simp add: example_compare) (auto simp: example_comparison_def cell_at_def)

end
